theory Spec2Isabelle
  imports Main "HOL-Library.AList"
begin

section \<open>Strings and numbers of the host language\<close>

text \<open>
  The program is a Node.js script (\<^verbatim>\<open>src/index.js\<close>). Strings are modelled as
  \<^typ>\<open>string\<close> (lists of bytes, the UTF-8 form of the JavaScript string), and the
  few built-in string operations the script calls are written out here.
\<close>

text \<open>\<^verbatim>\<open>s.startsWith(p)\<close>\<close>

definition starts_with :: "string \<Rightarrow> string \<Rightarrow> bool" where
  "starts_with p s = (take (length p) s = p)"

text \<open>\<^verbatim>\<open>s.split(c)\<close> for a one-character separator: never the empty list.\<close>

fun split_on :: "char \<Rightarrow> string \<Rightarrow> string list" where
  "split_on c [] = [[]]"
| "split_on c (x # xs) =
     (if x = c then [] # split_on c xs
      else (case split_on c xs of
              [] \<Rightarrow> [[x]]
            | w # ws \<Rightarrow> (x # w) # ws))"

text \<open>
  A JavaScript number as far as the script needs it: \<open>NaN\<close> or an integer. (Doubles
  represent integers exactly below \<open>2 ^ 53\<close>; rounding above that is not modelled.)
\<close>

datatype jsnum = NaN | Num int

fun js_mul :: "jsnum \<Rightarrow> jsnum \<Rightarrow> jsnum" where
  "js_mul (Num a) (Num b) = Num (a * b)"
| "js_mul _ _ = NaN"

text \<open>\<^verbatim>\<open>a > b\<close> on numbers: false as soon as one side is \<open>NaN\<close>.\<close>

fun js_gt :: "jsnum \<Rightarrow> jsnum \<Rightarrow> bool" where
  "js_gt (Num a) (Num b) = (b < a)"
| "js_gt _ _ = False"

text \<open>
  \<^verbatim>\<open>parseInt(s)\<close> with no radix: leading white space is skipped, then an optional
  sign, then an optional \<^verbatim>\<open>0x\<close> prefix that selects radix 16, then the longest run of
  digits; with no digit the result is \<open>NaN\<close>. Whatever follows the digits is ignored.
  (White space is the ASCII part of the language's white space.)
\<close>

definition is_space :: "char \<Rightarrow> bool" where
  "is_space c = (c \<in> set [CHR '' '', CHR 0x09, CHR 0x0A, CHR 0x0B, CHR 0x0C, CHR 0x0D])"

definition digit_of :: "char \<Rightarrow> nat option" where
  "digit_of c =
     (let n = of_char c :: nat in
      if 48 \<le> n \<and> n \<le> 57 then Some (n - 48)
      else if 97 \<le> n \<and> n \<le> 102 then Some (n - 87)
      else if 65 \<le> n \<and> n \<le> 70 then Some (n - 55)
      else None)"

definition is_digit :: "nat \<Rightarrow> char \<Rightarrow> bool" where
  "is_digit radix c = (case digit_of c of None \<Rightarrow> False | Some d \<Rightarrow> d < radix)"

definition digit_val :: "char \<Rightarrow> nat" where
  "digit_val c = (case digit_of c of None \<Rightarrow> 0 | Some d \<Rightarrow> d)"

definition digits_value :: "nat \<Rightarrow> string \<Rightarrow> nat" where
  "digits_value radix ds = foldl (\<lambda>a c. a * radix + digit_val c) 0 ds"

definition parseInt :: "string \<Rightarrow> jsnum" where
  "parseInt s =
     (let t = dropWhile is_space s;
          neg = starts_with ''-'' t;
          t1 = (if starts_with ''-'' t \<or> starts_with ''+'' t then drop 1 t else t);
          hex = (starts_with ''0x'' t1 \<or> starts_with ''0X'' t1);
          radix = (if hex then 16 else 10);
          t2 = (if hex then drop 2 t1 else t1);
          ds = takeWhile (is_digit radix) t2
      in if ds = [] then NaN
         else Num ((if neg then - 1 else 1) * int (digits_value radix ds)))"

section \<open>Errors\<close>

text \<open>
  Every exception the script can raise is a value. A function that can throw returns
  \<open>error + 'a\<close>, with \<open>Inl\<close> for the exception.
\<close>

datatype error =
    Error string
  | TypeError
  | URIError
  | FsError string
  | HttpError string
  | EncodeError string
  | BrowserError
  | DiscordError

section \<open>Check interval (\<^verbatim>\<open>parseCheckInterval\<close>)\<close>

text \<open>
  \<^verbatim>\<open>
  function parseCheckInterval(cronPattern) {
    const cronParts = cronPattern.split(' ');
    if (cronParts[0].startsWith('*/')) {
      const minutes = parseInt(cronParts[0].substring(2));
      return minutes * 60 * 1000;
    }
    throw new Error('Only simple interval cron patterns are supported');
  }
  \<close>
\<close>

definition parseCheckInterval :: "string \<Rightarrow> error + jsnum" where
  "parseCheckInterval cronPattern =
     (case split_on CHR '' '' cronPattern of
        [] \<Rightarrow> Inl TypeError
      | first # _ \<Rightarrow>
          if starts_with ''*/'' first then
            (let minutes = parseInt (drop 2 first)
             in Inr (js_mul (js_mul minutes (Num 60)) (Num 1000)))
          else Inl (Error ''Only simple interval cron patterns are supported''))"

section \<open>URL normalizer (\<^verbatim>\<open>extractUrl\<close>)\<close>

subsection \<open>\<^verbatim>\<open>decodeURIComponent\<close>\<close>

text \<open>
  The built-in decoder, on the UTF-8 form of the string. An escape \<^verbatim>\<open>%XX\<close> stands for
  one byte; a \<^verbatim>\<open>%\<close> that is not followed by two hexadecimal digits raises
  \<^verbatim>\<open>URIError\<close>, and so does a run of escaped bytes that is not well-formed UTF-8
  (a lead byte followed by the right number of escaped continuation bytes, in the
  ranges of the Unicode standard). \<open>None\<close> is the exception.
\<close>

datatype token = Lit char | Enc nat

definition hex_of :: "char \<Rightarrow> nat option" where
  "hex_of c = (if is_digit 16 c then Some (digit_val c) else None)"

fun tokens :: "string \<Rightarrow> token list option" where
  "tokens [] = Some []"
| "tokens (c # cs) =
     (if c = CHR ''%'' then
        (case cs of
           h1 # h2 # rest \<Rightarrow>
             (case hex_of h1 of
                None \<Rightarrow> None
              | Some a \<Rightarrow>
                  (case hex_of h2 of
                     None \<Rightarrow> None
                   | Some b \<Rightarrow> map_option (Cons (Enc (16 * a + b))) (tokens rest)))
         | _ \<Rightarrow> None)
      else map_option (Cons (Lit c)) (tokens cs))"

fun enc_in :: "nat \<Rightarrow> nat \<Rightarrow> token \<Rightarrow> bool" where
  "enc_in lo hi (Enc b) = (lo \<le> b \<and> b \<le> hi)"
| "enc_in lo hi (Lit c) = False"

fun utf8_ok :: "token list \<Rightarrow> bool" where
  "utf8_ok [] = True"
| "utf8_ok (Lit c # ts) = utf8_ok ts"
| "utf8_ok (Enc b # ts) =
     (if b < 128 then utf8_ok ts
      else if 194 \<le> b \<and> b \<le> 223 then
        (case ts of
           t1 # r \<Rightarrow> enc_in 128 191 t1 \<and> utf8_ok r
         | _ \<Rightarrow> False)
      else if 224 \<le> b \<and> b \<le> 239 then
        (case ts of
           t1 # t2 # r \<Rightarrow>
             enc_in (if b = 224 then 160 else 128) (if b = 237 then 159 else 191) t1 \<and>
             enc_in 128 191 t2 \<and> utf8_ok r
         | _ \<Rightarrow> False)
      else if 240 \<le> b \<and> b \<le> 244 then
        (case ts of
           t1 # t2 # t3 # r \<Rightarrow>
             enc_in (if b = 240 then 144 else 128) (if b = 244 then 143 else 191) t1 \<and>
             enc_in 128 191 t2 \<and> enc_in 128 191 t3 \<and> utf8_ok r
         | _ \<Rightarrow> False)
      else False)"

fun emit :: "token \<Rightarrow> char" where
  "emit (Lit c) = c"
| "emit (Enc b) = char_of b"

definition decodeURIComponent :: "string \<Rightarrow> string option" where
  "decodeURIComponent s =
     (case tokens s of
        None \<Rightarrow> None
      | Some ts \<Rightarrow> if utf8_ok ts then Some (map emit ts) else None)"

text \<open>Decoding never lengthens a string, and it shortens every string it changes.\<close>

lemma tokens_length: "tokens s = Some ts \<Longrightarrow> length ts \<le> length s"
proof (induction s arbitrary: ts rule: length_induct)
  case (1 s)
  show ?case
  proof (cases s)
    case Nil
    with "1.prems" show ?thesis by simp
  next
    case (Cons c cs)
    show ?thesis
    proof (cases "c = CHR ''%''")
      case True
      with "1.prems" Cons obtain h1 h2 rest ts' where
        cs: "cs = h1 # h2 # rest" and t: "tokens rest = Some ts'"
        and l: "length ts = Suc (length ts')"
        by (auto split: list.splits option.splits)
      from "1.IH" Cons cs t have "length ts' \<le> length rest" by simp
      with Cons cs l show ?thesis by simp
    next
      case False
      with "1.prems" Cons obtain ts' where
        t: "tokens cs = Some ts'" and l: "length ts = Suc (length ts')"
        by (auto split: option.splits)
      from "1.IH" Cons t have "length ts' \<le> length cs" by simp
      with Cons l show ?thesis by simp
    qed
  qed
qed

lemma tokens_same_length:
  "tokens s = Some ts \<Longrightarrow> length ts = length s \<Longrightarrow> map emit ts = s"
proof (induction s arbitrary: ts)
  case Nil
  then show ?case by simp
next
  case (Cons c cs)
  show ?case
  proof (cases "c = CHR ''%''")
    case True
    with Cons.prems(1) obtain h1 h2 rest ts' where
      cs: "cs = h1 # h2 # rest" and t: "tokens rest = Some ts'"
      and l: "length ts = Suc (length ts')"
      by (auto split: list.splits option.splits)
    from tokens_length [OF t] cs l Cons.prems(2) show ?thesis by simp
  next
    case False
    with Cons.prems obtain ts' where
      t: "tokens cs = Some ts'" and e: "ts = Lit c # ts'"
      by (auto split: option.splits)
    with Cons.IH [OF t] Cons.prems(2) show ?thesis by simp
  qed
qed

lemma decodeURIComponent_shrinks:
  "decodeURIComponent s = Some d \<Longrightarrow> d \<noteq> s \<Longrightarrow> length d < length s"
  using tokens_length tokens_same_length
  by (fastforce simp: decodeURIComponent_def split: option.splits if_splits)

subsection \<open>The loop over encoding layers\<close>

text \<open>
  \<^verbatim>\<open>
  let previousUrl;
  do {
    previousUrl = currentUrl;
    const decoded = decodeURIComponent(currentUrl);
    currentUrl = decoded.startsWith('http') ? decoded : currentUrl;
  } while (currentUrl !== previousUrl);
  \<close>
  The loop goes round again only with a strictly shorter string, so it ends. \<open>None\<close> is
  the \<^verbatim>\<open>URIError\<close> of a decoding step.
\<close>

function decode_layers :: "string \<Rightarrow> string option" where
  "decode_layers currentUrl =
     (case decodeURIComponent currentUrl of
        None \<Rightarrow> None
      | Some decoded \<Rightarrow>
          (let nextUrl = (if starts_with ''http'' decoded then decoded else currentUrl)
           in if nextUrl \<noteq> currentUrl then decode_layers nextUrl else Some nextUrl))"
  by pat_completeness auto
termination
  by (relation "measure length") (auto split: if_splits dest: decodeURIComponent_shrinks)

declare decode_layers.simps [simp del]

subsection \<open>\<^verbatim>\<open>new URL(s).searchParams\<close>\<close>

text \<open>
  The platform's URL parser, as far as the normalizer depends on it. The input is
  stripped of leading and trailing control characters and spaces and of tabs and line
  breaks. It must begin with a scheme (a letter, then letters, digits, \<^verbatim>\<open>+\<close>, \<^verbatim>\<open>-\<close>
  or \<^verbatim>\<open>.\<close>, then a colon): there is no base URL, so anything else is a
  \<^verbatim>\<open>TypeError\<close>. For the schemes \<^verbatim>\<open>http\<close>, \<^verbatim>\<open>https\<close>, \<^verbatim>\<open>ws\<close>, \<^verbatim>\<open>wss\<close> and
  \<^verbatim>\<open>ftp\<close> an empty host is a \<^verbatim>\<open>TypeError\<close> as well. The query runs from the first
  \<^verbatim>\<open>?\<close> to the first \<^verbatim>\<open>#\<close>; its pairs are separated by \<^verbatim>\<open>&\<close>, name and value
  by the first \<^verbatim>\<open>=\<close>, a \<^verbatim>\<open>+\<close> stands for a space, and valid \<^verbatim>\<open>%XX\<close> escapes are
  decoded (an invalid one is kept as it is). Not modelled: the parser's further checks
  of the host and the port, which reject more inputs.
\<close>

definition is_alpha :: "char \<Rightarrow> bool" where
  "is_alpha c =
     (let n = of_char c :: nat in (65 \<le> n \<and> n \<le> 90) \<or> (97 \<le> n \<and> n \<le> 122))"

definition scheme_char :: "char \<Rightarrow> bool" where
  "scheme_char c = (is_alpha c \<or> is_digit 10 c \<or> c \<in> set ''+-.'')"

definition to_lower :: "char \<Rightarrow> char" where
  "to_lower c =
     (let n = of_char c :: nat in if 65 \<le> n \<and> n \<le> 90 then char_of (n + 32) else c)"

definition c0_or_space :: "char \<Rightarrow> bool" where
  "c0_or_space c = ((of_char c :: nat) \<le> 32)"

definition url_input :: "string \<Rightarrow> string" where
  "url_input s =
     filter (\<lambda>c. c \<notin> set [CHR 0x09, CHR 0x0A, CHR 0x0D])
       (rev (dropWhile c0_or_space (rev (dropWhile c0_or_space s))))"

definition url_scheme :: "string \<Rightarrow> (string \<times> string) option" where
  "url_scheme s =
     (let sch = takeWhile (\<lambda>c. c \<noteq> CHR '':'') s
      in if sch \<noteq> [] \<and> is_alpha (hd sch) \<and> list_all scheme_char sch \<and> length sch < length s
         then Some (map to_lower sch, drop (Suc (length sch)) s)
         else None)"

definition url_host :: "string \<Rightarrow> string" where
  "url_host rest =
     (let authority =
            takeWhile (\<lambda>c. c \<notin> set [CHR ''/'', CHR 0x5C, CHR ''?'', CHR ''#''])
              (dropWhile (\<lambda>c. c \<in> set [CHR ''/'', CHR 0x5C]) rest);
          hostport = rev (takeWhile (\<lambda>c. c \<noteq> CHR ''@'') (rev authority))
      in takeWhile (\<lambda>c. c \<noteq> CHR '':'') hostport)"

definition url_query :: "string \<Rightarrow> string" where
  "url_query rest =
     drop 1 (dropWhile (\<lambda>c. c \<noteq> CHR ''?'') (takeWhile (\<lambda>c. c \<noteq> CHR ''#'') rest))"

fun percent_decode :: "string \<Rightarrow> string" where
  "percent_decode (c # h1 # h2 # rest) =
     (if c = CHR ''%'' \<and> is_digit 16 h1 \<and> is_digit 16 h2
      then char_of (16 * digit_val h1 + digit_val h2) # percent_decode rest
      else c # percent_decode (h1 # h2 # rest))"
| "percent_decode cs = cs"

definition form_decode :: "string \<Rightarrow> string" where
  "form_decode s = percent_decode (map (\<lambda>c. if c = CHR ''+'' then CHR '' '' else c) s)"

definition form_pair :: "string \<Rightarrow> string \<times> string" where
  "form_pair piece =
     (form_decode (takeWhile (\<lambda>c. c \<noteq> CHR ''='') piece),
      form_decode (drop 1 (dropWhile (\<lambda>c. c \<noteq> CHR ''='') piece)))"

definition parse_query :: "string \<Rightarrow> (string \<times> string) list" where
  "parse_query q = map form_pair (filter (\<lambda>piece. piece \<noteq> []) (split_on CHR ''&'' q))"

text \<open>
  \<open>None\<close> is the \<^verbatim>\<open>TypeError\<close> of \<^verbatim>\<open>new URL\<close>. On the list of pairs,
  \<^verbatim>\<open>urlParams.has(k)\<close> is \<open>map_of urlParams k \<noteq> None\<close> and \<^verbatim>\<open>urlParams.get(k)\<close> is
  the value \<open>map_of\<close> finds (the first one with that name).
\<close>

definition URL_searchParams :: "string \<Rightarrow> (string \<times> string) list option" where
  "URL_searchParams s =
     (case url_scheme (url_input s) of
        None \<Rightarrow> None
      | Some (scheme, rest) \<Rightarrow>
          if scheme \<in> set [''http'', ''https'', ''ws'', ''wss'', ''ftp''] \<and> url_host rest = []
          then None
          else Some (parse_query (url_query rest)))"

subsection \<open>\<^verbatim>\<open>extractUrl\<close>\<close>

text \<open>
  \<^verbatim>\<open>
  function extractUrl(url) {
    try {
      let currentUrl = url;
      const urlParams = new URL(currentUrl).searchParams;
      if (urlParams.has('u')) {
        currentUrl = decodeURIComponent(urlParams.get('u'));
      }
      if (urlParams.has('url')) {
        currentUrl = decodeURIComponent(urlParams.get('url'));
      }
      // Handle multiple encoding layers
      ... the loop above ...
      return currentUrl;
    } catch (error) {
      console.error('URL extraction error:', error);
      return url;
    }
  }
  \<close>
  \<open>unwrap_param\<close> is one of the two \<^verbatim>\<open>if (urlParams.has(k))\<close> statements,
  \<open>extractUrl_try\<close> the \<^verbatim>\<open>try\<close> block (\<open>None\<close> when it throws), and \<open>extractUrl\<close>
  adds the \<^verbatim>\<open>catch\<close>, which returns the argument.
\<close>

definition unwrap_param ::
  "(string \<times> string) list \<Rightarrow> string \<Rightarrow> string \<Rightarrow> string option" where
  "unwrap_param urlParams k currentUrl =
     (case map_of urlParams k of
        None \<Rightarrow> Some currentUrl
      | Some v \<Rightarrow> decodeURIComponent v)"

definition extractUrl_try :: "string \<Rightarrow> string option" where
  "extractUrl_try url =
     (case URL_searchParams url of
        None \<Rightarrow> None
      | Some urlParams \<Rightarrow>
          (case unwrap_param urlParams ''u'' url of
             None \<Rightarrow> None
           | Some c1 \<Rightarrow>
               (case unwrap_param urlParams ''url'' c1 of
                  None \<Rightarrow> None
                | Some c2 \<Rightarrow> decode_layers c2)))"

definition extractUrl :: "string \<Rightarrow> string" where
  "extractUrl url = (case extractUrl_try url of None \<Rightarrow> url | Some r \<Rightarrow> r)"

text \<open>
  A string the normalizer would unwrap: it parses as a URL and its query has a
  parameter \<^verbatim>\<open>u\<close> or \<^verbatim>\<open>url\<close>.
\<close>

definition has_wrapper :: "string \<Rightarrow> bool" where
  "has_wrapper s =
     (case URL_searchParams s of
        None \<Rightarrow> False
      | Some urlParams \<Rightarrow> map_of urlParams ''u'' \<noteq> None \<or> map_of urlParams ''url'' \<noteq> None)"

section \<open>Data model\<close>

text \<open>
  JavaScript values that may be \<^verbatim>\<open>undefined\<close> or \<^verbatim>\<open>null\<close> are options. A string is
  truthy when it is present and not empty; \<^verbatim>\<open>a || b\<close> is \<open>js_or a b\<close>; an
  \<^verbatim>\<open>undefined\<close> turned into a string reads \<^verbatim>\<open>undefined\<close>.
\<close>

fun truthy :: "string option \<Rightarrow> bool" where
  "truthy None = False"
| "truthy (Some s) = (s \<noteq> [])"

definition js_or :: "string option \<Rightarrow> string option \<Rightarrow> string option" where
  "js_or a b = (if truthy a then a else b)"

fun to_string :: "string option \<Rightarrow> string" where
  "to_string None = ''undefined''"
| "to_string (Some s) = s"

text \<open>\<^verbatim>\<open>s.trim()\<close>, for ASCII white space.\<close>

definition trim :: "string \<Rightarrow> string" where
  "trim s = rev (dropWhile is_space (rev (dropWhile is_space s)))"

text \<open>A natural number in decimal, as a template literal prints it.\<close>

definition digit_char :: "nat \<Rightarrow> char" where
  "digit_char d = ''0123456789'' ! d"

fun show_nat :: "nat \<Rightarrow> string" where
  "show_nat n =
     (if n < 10 then [digit_char n]
      else show_nat (n div 10) @ [digit_char (n mod 10)])"

declare show_nat.simps [simp del]

text \<open>
  The configuration the functions below read (\<^verbatim>\<open>config.FB_URL\<close>,
  \<^verbatim>\<open>config.MEDIA_DIR\<close>, \<^verbatim>\<open>config.DATA_FILE\<close>).
\<close>

record config =
  FB_URL :: string
  MEDIA_DIR :: string
  DATA_FILE :: string

text \<open>
  The record kept for a page, \<^verbatim>\<open>{ url, timestamp }\<close>, and the store
  \<^verbatim>\<open>storage.posts\<close>: an object keyed by page name, here an association list in the
  order of the object's keys. \<^verbatim>\<open>storage.posts[k]\<close> is \<open>map_of posts k\<close>, and the
  assignment \<^verbatim>\<open>storage.posts[k] = v\<close> is \<open>AList.update k v posts\<close> (in place for a key
  that is there, at the end for a new one). The data file holds the JSON text of the store;
  the model keeps the store it was written from, and \<open>None\<close> for a file that is absent
  or unreadable. The state of the program is the store in memory and the data file.
\<close>

record seen_post =
  seen_url :: "string option"
  seen_timestamp :: string

type_synonym storage = "(string \<times> seen_post) list"

record state =
  posts :: storage
  data_file :: "storage option"

text \<open>
  Start-up (\<^verbatim>\<open>let storage = { posts: {} }; try { storage = JSON.parse(await
  readFile(...)) } catch { }\<close>): the store in memory is the one in the file, or empty.
\<close>

definition load_storage :: "storage option \<Rightarrow> state" where
  "load_storage f = \<lparr>posts = (case f of None \<Rightarrow> [] | Some st \<Rightarrow> st), data_file = f\<rparr>"

text \<open>
  What the markup queries of \<^verbatim>\<open>processWebPost\<close> find in one
  \<^verbatim>\<open>div[role="article"]\<close> element. The HTML parser is a collaborator; the model takes
  the results of its queries:
  \<^item> \<open>permalink_href\<close>: \<^verbatim>\<open>post.find('a[href*="/posts/"]').attr('href')\<close>;
  \<^item> \<open>preview\<close>: the first element matching the three link-preview selectors, with the
    attributes the script reads from it (\<^verbatim>\<open>attr('data-lynx-uri')\<close>,
    \<^verbatim>\<open>find('a').attr('href')\<close>, \<^verbatim>\<open>closest('a').attr('href')\<close>,
    \<^verbatim>\<open>find('img').closest('a').attr('href')\<close>);
  \<^item> \<open>message_text\<close>: \<^verbatim>\<open>post.find('div[data-ad-preview="message"]').text()\<close>;
  \<^item> \<open>video_src\<close>: \<open>None\<close> when \<^verbatim>\<open>post.find('video')\<close> is empty, else the
    \<^verbatim>\<open>src\<close> attribute of its first element;
  \<^item> \<open>img_srcs\<close>: the \<^verbatim>\<open>src\<close> attribute of every \<^verbatim>\<open>img\<close> element, in document
    order.
\<close>

record link_preview =
  data_lynx_uri :: "string option"
  inner_href :: "string option"
  closest_href :: "string option"
  img_parent_href :: "string option"

record post_element =
  permalink_href :: "string option"
  preview :: "link_preview option"
  message_text :: string
  video_src :: "string option option"
  img_srcs :: "string option list"

datatype media_type = VideoType | ImageType

record media_item =
  kind :: media_type
  path :: "string option"

record embedded_link =
  link_url :: string

record attachment_file =
  attachment :: string
  file_name :: string

record message =
  content :: string
  files :: "attachment_file list"

text \<open>
  Everything the program does to the outside world, in the order it does it: the
  browser session, HTTP requests, file operations, the rewrite of the data file (with
  the store that is serialised), and the calls to the chat client.
\<close>

datatype effect =
    PageLoad string
  | BrowserQuit
  | HttpHead string
  | FileOpen string
  | HttpGet string
  | Transcode string
  | FileClose string
  | WriteStore string storage
  | ChannelFetch string
  | FileStat string
  | Send string message
  | Unlink string

text \<open>
  What the outside world answers during one check of one page. Every operation that can
  fail has its outcome here, so that each exception of the script is a branch of the
  model.
  \<^item> \<open>page_source\<close>: the browser. \<open>BuildFails\<close>: \<^verbatim>\<open>new Builder()...build()\<close> rejects
    (before the \<^verbatim>\<open>try\<close>); \<open>LoadFails\<close>: one of \<^verbatim>\<open>driver.get\<close>, \<^verbatim>\<open>sleep\<close>,
    \<^verbatim>\<open>executeScript\<close>, \<^verbatim>\<open>getPageSource\<close> rejects; \<open>Loaded arts\<close>: the page source
    is read, and \<open>arts\<close> are its \<^verbatim>\<open>div[role="article"]\<close> elements in document order.
  \<^item> \<open>quit_ok\<close>: \<^verbatim>\<open>driver.quit()\<close> resolves.
  \<^item> \<open>now_iso\<close>, \<open>now_ms\<close>: \<^verbatim>\<open>new Date().toISOString()\<close> and \<^verbatim>\<open>Date.now()\<close>
    (one reading of the clock for the whole check).
  \<^item> \<open>head_reply u\<close>: \<^verbatim>\<open>axios.head(u)\<close>; \<open>None\<close> when it rejects, else the
    \<^verbatim>\<open>content-length\<close> header of the response (\<open>None\<close> when there is none).
  \<^item> \<open>open_ok p\<close>, \<open>close_ok p\<close>: \<^verbatim>\<open>open(p, 'w')\<close> and \<^verbatim>\<open>fileHandle.close()\<close>
    resolve; \<open>get_ok u\<close>: \<^verbatim>\<open>axios.get(u)\<close> and the pipeline into the file resolve;
    \<open>ffmpeg_ok p\<close>: the re-encoding of \<open>p\<close> ends without error.
  \<^item> \<open>write_ok\<close>: \<^verbatim>\<open>writeFile(config.DATA_FILE, ...)\<close> resolves.
  \<^item> \<open>arrived i\<close>: the image callback number \<open>i\<close>, which nothing awaits, has pushed
    its item on \<^verbatim>\<open>content.media\<close> by the time the delivery loop reads the array.
  \<^item> \<open>channel_ok\<close>: \<^verbatim>\<open>discordClient.channels.fetch\<close> resolves; \<open>send_ok\<close>:
    \<^verbatim>\<open>channel.send\<close> resolves.
  \<^item> \<open>file_size p\<close>: \<^verbatim>\<open>(await stat(p)).size\<close>, \<open>None\<close> when \<^verbatim>\<open>stat\<close> rejects.
\<close>

datatype page_result = BuildFails | LoadFails | Loaded "post_element list"

record world =
  page_source :: page_result
  quit_ok :: bool
  now_iso :: string
  now_ms :: nat
  head_reply :: "string \<Rightarrow> string option option"
  open_ok :: "string \<Rightarrow> bool"
  get_ok :: "string \<Rightarrow> bool"
  ffmpeg_ok :: "string \<Rightarrow> bool"
  close_ok :: "string \<Rightarrow> bool"
  write_ok :: bool
  arrived :: "nat \<Rightarrow> bool"
  channel_ok :: bool
  file_size :: "string \<Rightarrow> nat option"
  send_ok :: bool

section \<open>Media fetcher (\<^verbatim>\<open>downloadMedia\<close>)\<close>

text \<open>
  \<^verbatim>\<open>
  async function downloadMedia(pageName, url, type, index = 0) {
    const ext = type === 'video' ? 'mp4' : 'jpg';
    const filename = `${pageName}_${Date.now()}_${index}.${ext}`;
    const filePath = path.join(config.MEDIA_DIR, filename);
    const fileHandle = await open(filePath, 'w');
    try {
      const response = await axios.get(url, { responseType: 'stream' });
      const writer = fileHandle.createWriteStream();
      await pipeline(response.data, writer);
      if (type === 'video') { await new Promise(... ffmpeg(filePath) ... .save(filePath)); }
      return filePath;
    } catch (error) {
      console.error(`Failed to download ${type}:`, error);
      return null;
    } finally {
      if (fileHandle) await fileHandle.close();
    }
  }
  \<close>
  The result is the list of effects and either the exception that leaves the function
  (\<open>Inl\<close>) or the value it returns (\<open>Inr\<close>: the path, or \<open>None\<close> for \<^verbatim>\<open>null\<close>).
  \<^verbatim>\<open>open\<close> stands before the \<^verbatim>\<open>try\<close>; an exception of \<^verbatim>\<open>close\<close> in the
  \<^verbatim>\<open>finally\<close> block replaces the value returned. \<^verbatim>\<open>path.join\<close> is modelled without
  its normalisation of the joined path.
\<close>

definition media_filename :: "string \<Rightarrow> nat \<Rightarrow> media_type \<Rightarrow> nat \<Rightarrow> string" where
  "media_filename pageName ms type index =
     pageName @ ''_'' @ show_nat ms @ ''_'' @ show_nat index @ ''.'' @
       (if type = VideoType then ''mp4'' else ''jpg'')"

definition path_join :: "string \<Rightarrow> string \<Rightarrow> string" where
  "path_join dir file = dir @ ''/'' @ file"

definition media_path :: "config \<Rightarrow> world \<Rightarrow> string \<Rightarrow> media_type \<Rightarrow> nat \<Rightarrow> string" where
  "media_path cfg w pageName type index =
     path_join (MEDIA_DIR cfg) (media_filename pageName (now_ms w) type index)"

definition download_try ::
  "world \<Rightarrow> string \<Rightarrow> media_type \<Rightarrow> string \<Rightarrow> effect list \<times> string option" where
  "download_try w url type filePath =
     (if \<not> get_ok w url then ([HttpGet url], None)
      else if type = VideoType then
        (if ffmpeg_ok w filePath then ([HttpGet url, Transcode filePath], Some filePath)
         else ([HttpGet url, Transcode filePath], None))
      else ([HttpGet url], Some filePath))"

definition downloadMedia ::
  "config \<Rightarrow> world \<Rightarrow> string \<Rightarrow> string \<Rightarrow> media_type \<Rightarrow> nat \<Rightarrow>
     effect list \<times> (error + string option)" where
  "downloadMedia cfg w pageName url type index =
     (let filePath = media_path cfg w pageName type index
      in if \<not> open_ok w filePath then ([FileOpen filePath], Inl (FsError filePath))
         else
           (let (effs, r) = download_try w url type filePath
            in (FileOpen filePath # effs @ [FileClose filePath],
                if close_ok w filePath then Inr r else Inl (FsError filePath))))"

section \<open>Post extractor (\<^verbatim>\<open>processWebPost\<close>)\<close>

text \<open>
  The object the extractor builds, \<^verbatim>\<open>{ text, media, url, embeddedLink, timestamp }\<close>
  (the field \<^verbatim>\<open>text\<close> is \<open>body_text\<close> here).
\<close>

record post_content =
  body_text :: string
  media :: "media_item list"
  url :: "string option"
  embeddedLink :: "embedded_link option"
  timestamp :: string

text \<open>
  An image callback ends in one of three ways: it pushes an item on
  \<^verbatim>\<open>content.media\<close>, it does nothing, or its promise rejects (nothing handles the
  rejection).
\<close>

datatype callback_result = Pushed media_item | Skipped | Rejected error

text \<open>
  The outcome of \<^verbatim>\<open>processWebPost\<close>: what the promise settles to (\<open>Inl\<close>: it rejects;
  \<open>Inr None\<close>: \<^verbatim>\<open>null\<close>; \<open>Inr (Some c)\<close>: the content), the state afterwards, the
  effects of the awaited part in order, and the image callbacks that
  \<^verbatim>\<open>images.each(async ...)\<close> started, in index order, each with its own effects. The
  callbacks are not awaited: how their effects interleave with the rest is up to
  the scheduler, so they are kept apart.
\<close>

record outcome =
  result :: "error + post_content option"
  after :: state
  effects :: "effect list"
  callbacks :: "(effect list \<times> callback_result) list"

text \<open>
  \<^verbatim>\<open>
  const postUrl = post.find('a[href*="/posts/"]').attr('href')?.split('?')[0];
  const fullPostUrl = postUrl ? `${postUrl}` : null;
  \<close>
\<close>

definition fullPostUrl :: "post_element \<Rightarrow> string option" where
  "fullPostUrl post =
     (case permalink_href post of
        None \<Rightarrow> None
      | Some href \<Rightarrow>
          (case split_on CHR ''?'' href of
             [] \<Rightarrow> None
           | postUrl # _ \<Rightarrow> if postUrl \<noteq> [] then Some postUrl else None))"

text \<open>
  \<^verbatim>\<open>storage.posts[pageName]?.url === fullPostUrl\<close>: with no record for the page the left
  side is \<^verbatim>\<open>undefined\<close>, which equals neither \<^verbatim>\<open>null\<close> nor a string.
\<close>

definition is_seen :: "state \<Rightarrow> string \<Rightarrow> string option \<Rightarrow> bool" where
  "is_seen st pageName fullUrl =
     (case map_of (posts st) pageName of
        None \<Rightarrow> False
      | Some r \<Rightarrow> seen_url r = fullUrl)"

text \<open>
  \<^verbatim>\<open>
  let embeddedLink = null;
  if (linkPreview.length) {
    try {
      const rawUrl = linkPreview.attr('data-lynx-uri') ||
        linkPreview.find('a').attr('href') ||
        linkPreview.closest('a').attr('href');
      embeddedLink = { url: extractUrl(decodeURIComponent(rawUrl)) };
      if (!embeddedLink.url.startsWith('http')) {
        const imgParentLink = linkPreview.find('img').closest('a').attr('href');
        if (imgParentLink) { embeddedLink.url = extractUrl(imgParentLink); }
      }
    } catch (error) { console.error('Link processing error:', error); }
  }
  \<close>
  Only \<^verbatim>\<open>decodeURIComponent(rawUrl)\<close> can throw here, before the assignment.
\<close>

definition extract_embedded_link :: "link_preview option \<Rightarrow> embedded_link option" where
  "extract_embedded_link linkPreview =
     (case linkPreview of
        None \<Rightarrow> None
      | Some lp \<Rightarrow>
          (let rawUrl = js_or (js_or (data_lynx_uri lp) (inner_href lp)) (closest_href lp)
           in case decodeURIComponent (to_string rawUrl) of
                None \<Rightarrow> None
              | Some d \<Rightarrow>
                  (let u = extractUrl d
                   in if \<not> starts_with ''http'' u \<and> truthy (img_parent_href lp)
                      then Some \<lparr>link_url = extractUrl (to_string (img_parent_href lp))\<rparr>
                      else Some \<lparr>link_url = u\<rparr>)))"

text \<open>
  \<^verbatim>\<open>
  const videoElement = post.find('video');
  if (videoElement.length) {
    const videoSrc = videoElement.attr('src');
    if (videoSrc) {
      const videoPath = await downloadMedia(pageName, videoSrc, 'video');
      content.media.push({ type: 'video', path: videoPath });
    }
  }
  \<close>
  The result: the effects, and the exception of \<^verbatim>\<open>downloadMedia\<close> or the items
  pushed.
\<close>

definition video_step ::
  "config \<Rightarrow> world \<Rightarrow> string \<Rightarrow> post_element \<Rightarrow> effect list \<times> (error + media_item list)" where
  "video_step cfg w pageName post =
     (case video_src post of
        None \<Rightarrow> ([], Inr [])
      | Some videoSrc \<Rightarrow>
          if truthy videoSrc then
            (case downloadMedia cfg w pageName (to_string videoSrc) VideoType 0 of
               (effs, Inl e) \<Rightarrow> (effs, Inl e)
             | (effs, Inr videoPath) \<Rightarrow> (effs, Inr [\<lparr>kind = VideoType, path = videoPath\<rparr>]))
          else ([], Inr []))"

text \<open>
  The body of the callback given to \<^verbatim>\<open>images.each\<close>:
  \<^verbatim>\<open>
  async (imgIndex, img) => {
    const imageUrl = $(img).attr('src');
    if (imageUrl && imageUrl.startsWith('http')) {
      // First check image size via HEAD request
      const headResponse = await axios.head(imageUrl);
      const contentLength = headResponse.headers['content-length'];
      if (contentLength && parseInt(contentLength) > 2048) {
        const imgPath = await downloadMedia(pageName, imageUrl, 'image', imgIndex);
        content.media.push({ type: 'image', path: imgPath });
      }
    }
  }
  \<close>
\<close>

definition imageCallback ::
  "config \<Rightarrow> world \<Rightarrow> string \<Rightarrow> nat \<Rightarrow> string option \<Rightarrow> effect list \<times> callback_result" where
  "imageCallback cfg w pageName imgIndex imageUrl =
     (if truthy imageUrl \<and> starts_with ''http'' (to_string imageUrl) then
        (case head_reply w (to_string imageUrl) of
           None \<Rightarrow> ([HttpHead (to_string imageUrl)], Rejected (HttpError (to_string imageUrl)))
         | Some contentLength \<Rightarrow>
             if truthy contentLength \<and> js_gt (parseInt (to_string contentLength)) (Num 2048)
             then
               (case downloadMedia cfg w pageName (to_string imageUrl) ImageType imgIndex of
                  (effs, Inl e) \<Rightarrow> (HttpHead (to_string imageUrl) # effs, Rejected e)
                | (effs, Inr imgPath) \<Rightarrow>
                    (HttpHead (to_string imageUrl) # effs,
                     Pushed \<lparr>kind = ImageType, path = imgPath\<rparr>))
             else ([HttpHead (to_string imageUrl)], Skipped))
      else ([], Skipped))"

definition image_callbacks ::
  "config \<Rightarrow> world \<Rightarrow> string \<Rightarrow> string option list \<Rightarrow> (effect list \<times> callback_result) list" where
  "image_callbacks cfg w pageName srcs =
     map (\<lambda>(imgIndex, src). imageCallback cfg w pageName imgIndex src) (enumerate 0 srcs)"

text \<open>
  \<^verbatim>\<open>
  storage.posts[pageName] = { url: content.url, timestamp: content.timestamp };
  await writeFile(config.DATA_FILE, JSON.stringify(storage, null, 2));
  return content;
  \<close>
  The record in memory is assigned first; the data file is rewritten from the whole
  store. When \<^verbatim>\<open>writeFile\<close> rejects, the function rejects with the store in memory
  already changed (the model leaves the file as it was). \<open>effs\<close> and \<open>cbs\<close> are the
  effects and callbacks so far.
\<close>

definition store_and_return ::
  "config \<Rightarrow> world \<Rightarrow> state \<Rightarrow> string \<Rightarrow> post_content \<Rightarrow> effect list \<Rightarrow>
     (effect list \<times> callback_result) list \<Rightarrow> outcome" where
  "store_and_return cfg w st pageName c effs cbs =
     (let posts' =
            AList.update pageName \<lparr>seen_url = url c, seen_timestamp = timestamp c\<rparr> (posts st)
      in if write_ok w then
           \<lparr>result = Inr (Some c),
            after = \<lparr>posts = posts', data_file = Some posts'\<rparr>,
            effects = effs @ [WriteStore (DATA_FILE cfg) posts'],
            callbacks = cbs\<rparr>
         else
           \<lparr>result = Inl (FsError (DATA_FILE cfg)),
            after = \<lparr>posts = posts', data_file = data_file st\<rparr>,
            effects = effs @ [WriteStore (DATA_FILE cfg) posts'],
            callbacks = cbs\<rparr>)"

text \<open>
  The \<^verbatim>\<open>try\<close> block of \<^verbatim>\<open>processWebPost\<close> from \<^verbatim>\<open>cheerio.load(pageSource)\<close> on
  (the extractor proper), given the \<^verbatim>\<open>div[role="article"]\<close> elements of the page:
  \<^verbatim>\<open>
  const post = $('div[role="article"]').first();
  if (!post.length) return null;
  ... fullPostUrl ...
  if (storage.posts[pageName]?.url === fullPostUrl) return null;
  ... embeddedLink ...
  const content = {
    text: post.find('div[data-ad-preview="message"]').text().trim(),
    media: [], url: fullPostUrl, embeddedLink: embeddedLink,
    timestamp: new Date().toISOString()
  };
  if (!embeddedLink) { ... video ...; images.each(async ...); }
  ... update storage, write, return content ...
  \<close>
\<close>

definition extractPost ::
  "config \<Rightarrow> world \<Rightarrow> state \<Rightarrow> string \<Rightarrow> post_element list \<Rightarrow> outcome" where
  "extractPost cfg w st pageName arts =
     (case arts of
        [] \<Rightarrow> \<lparr>result = Inr None, after = st, effects = [], callbacks = []\<rparr>
      | post # _ \<Rightarrow>
          if is_seen st pageName (fullPostUrl post) then
            \<lparr>result = Inr None, after = st, effects = [], callbacks = []\<rparr>
          else
            (let link = extract_embedded_link (preview post);
                 c = \<lparr>body_text = trim (message_text post), media = [],
                      url = fullPostUrl post, embeddedLink = link, timestamp = now_iso w\<rparr>
             in if link \<noteq> None then store_and_return cfg w st pageName c [] []
                else
                  (case video_step cfg w pageName post of
                     (effs, Inl e) \<Rightarrow>
                       \<lparr>result = Inl e, after = st, effects = effs, callbacks = []\<rparr>
                   | (effs, Inr vs) \<Rightarrow>
                       store_and_return cfg w st pageName (c\<lparr>media := vs\<rparr>) effs
                         (image_callbacks cfg w pageName (img_srcs post)))))"

text \<open>
  \<^verbatim>\<open>
  async function processWebPost(pageName) {
    const driver = await new Builder()....build();
    try {
      await driver.get(`${config.FB_URL}/${pageName}`);
      ... sleep, scroll, sleep ...
      const pageSource = await driver.getPageSource();
      ... the extractor ...
    } finally {
      await driver.quit();
    }
  }
  \<close>
  An exception of \<^verbatim>\<open>driver.quit()\<close> in the \<^verbatim>\<open>finally\<close> block replaces the result.
\<close>

definition page_url :: "config \<Rightarrow> string \<Rightarrow> string" where
  "page_url cfg pageName = FB_URL cfg @ ''/'' @ pageName"

definition finally_quit :: "world \<Rightarrow> outcome \<Rightarrow> outcome" where
  "finally_quit w out =
     out\<lparr>effects := effects out @ [BrowserQuit],
         result := (if quit_ok w then result out else Inl BrowserError)\<rparr>"

definition processWebPost :: "config \<Rightarrow> world \<Rightarrow> state \<Rightarrow> string \<Rightarrow> outcome" where
  "processWebPost cfg w st pageName =
     (case page_source w of
        BuildFails \<Rightarrow> \<lparr>result = Inl BrowserError, after = st, effects = [], callbacks = []\<rparr>
      | LoadFails \<Rightarrow>
          finally_quit w
            \<lparr>result = Inl BrowserError, after = st,
             effects = [PageLoad (page_url cfg pageName)], callbacks = []\<rparr>
      | Loaded arts \<Rightarrow>
          finally_quit w
            (let out = extractPost cfg w st pageName arts
             in out\<lparr>effects := PageLoad (page_url cfg pageName) # effects out\<rparr>))"

section \<open>Delivery (\<^verbatim>\<open>sendDiscordMessage\<close>)\<close>

text \<open>\<^verbatim>\<open>path.basename(p)\<close>, for a path that does not end in a separator.\<close>

definition basename :: "string \<Rightarrow> string" where
  "basename p = rev (takeWhile (\<lambda>c. c \<noteq> CHR ''/'') (rev p))"

text \<open>
  One round of the loop over \<^verbatim>\<open>content.media\<close>:
  \<^verbatim>\<open>
  try {
    if (media.path) {
      const fileStats = await stat(media.path);
      if (fileStats.size < 25_000_000) {
        message.files.push({ attachment: media.path, name: path.basename(media.path) });
        filesToDelete.push(media.path);
      } else { console.log(`File ${media.path} exceeds 25MB limit`); }
    }
  } catch (error) { console.error(...); }
  \<close>
  The result: the effects, and the paths pushed on \<^verbatim>\<open>message.files\<close> and
  \<^verbatim>\<open>filesToDelete\<close> (none or one).
\<close>

definition attach_media :: "world \<Rightarrow> media_item \<Rightarrow> effect list \<times> string list" where
  "attach_media w m =
     (if truthy (path m) then
        (case file_size w (to_string (path m)) of
           None \<Rightarrow> ([FileStat (to_string (path m))], [])
         | Some sz \<Rightarrow>
             if sz < 25000000
             then ([FileStat (to_string (path m))], [to_string (path m)])
             else ([FileStat (to_string (path m))], []))
      else ([], []))"

text \<open>
  \<^verbatim>\<open>
  async function sendDiscordMessage(pageConfig, content) {
    const [pageName, channelId] = pageConfig;
    const channel = await discordClient.channels.fetch(channelId);
    const filesToDelete = [];
    const message = { content: `**${pageName}**\n${content.text}`, files: [] };
    if (content.embeddedLink?.url) {
      message.content += `\n\n(link sign) Link: ${content.embeddedLink.url}`;
    } else {
      for (const media of content.media) { ... the round above ... }
    }
    try {
      const sentMessage = await channel.send(message);
      // Delete files after successful upload
      await Promise.allSettled(filesToDelete.map(async (filePath) => {
        try { await unlink(filePath); } catch (error) { console.error(...); }
      }));
      return sentMessage;
    } catch (error) {
      console.error(`Failed to send message to Discord:`, error.message);
      throw error;
    }
  }
  \<close>
  The link sign is the character U+1F517, four bytes in UTF-8. A failing \<^verbatim>\<open>unlink\<close> is
  logged and changes nothing else, so its outcome is not part of the model.
\<close>

definition link_line :: "string \<Rightarrow> string" where
  "link_line u =
     [CHR 0x0A, CHR 0x0A, CHR 0xF0, CHR 0x9F, CHR 0x94, CHR 0x97] @ '' Link: '' @ u"

definition link_of :: "post_content \<Rightarrow> string option" where
  "link_of c =
     (case embeddedLink c of
        None \<Rightarrow> None
      | Some l \<Rightarrow> if link_url l \<noteq> [] then Some (link_url l) else None)"

definition sendDiscordMessage ::
  "world \<Rightarrow> string \<times> string \<Rightarrow> post_content \<Rightarrow> effect list \<times> (error + message)" where
  "sendDiscordMessage w pageConfig c =
     (let pageName = fst pageConfig;
          channelId = snd pageConfig
      in if \<not> channel_ok w then ([ChannelFetch channelId], Inl DiscordError)
         else
           (let rounds = (if link_of c \<noteq> None then [] else map (attach_media w) (media c));
                filesToDelete = concat (map snd rounds);
                msg =
                  \<lparr>content =
                     ''**'' @ pageName @ ''**'' @ [CHR 0x0A] @ body_text c @
                       (case link_of c of None \<Rightarrow> [] | Some u \<Rightarrow> link_line u),
                   files = map (\<lambda>p. \<lparr>attachment = p, file_name = basename p\<rparr>) filesToDelete\<rparr>
            in if send_ok w then
                 ([ChannelFetch channelId] @ concat (map fst rounds) @ [Send channelId msg] @
                    map Unlink filesToDelete,
                  Inr msg)
               else
                 ([ChannelFetch channelId] @ concat (map fst rounds) @ [Send channelId msg],
                  Inl DiscordError)))"

section \<open>One check of a page (\<^verbatim>\<open>monitorPage\<close>) and the checks in sequence\<close>

text \<open>
  The array \<^verbatim>\<open>content.media\<close> as the delivery loop reads it: the items pushed before
  \<^verbatim>\<open>processWebPost\<close> returned, then the items of the image callbacks that arrived in
  time (in index order here; the order of arrival is the scheduler's).
\<close>

definition media_at_delivery ::
  "world \<Rightarrow> post_content \<Rightarrow> (effect list \<times> callback_result) list \<Rightarrow> media_item list" where
  "media_at_delivery w c cbs =
     media c @
       concat (map (\<lambda>(i, cb). case snd cb of
                                 Pushed m \<Rightarrow> if arrived w i then [m] else []
                               | _ \<Rightarrow> [])
                 (enumerate 0 cbs))"

text \<open>
  \<^verbatim>\<open>
  async function monitorPage(pageConfig) {
    try {
      const content = await processWebPost(pageConfig[0]);
      if (content) await sendDiscordMessage(pageConfig, content);
    } catch (error) {
      console.error(`Error processing ${pageConfig[0]}:`, error);
    }
  }
  \<close>
  Every exception ends here, so the result is the state afterwards and the effects of
  the awaited part.
\<close>

definition monitorPage ::
  "config \<Rightarrow> world \<Rightarrow> state \<Rightarrow> string \<times> string \<Rightarrow> state \<times> effect list" where
  "monitorPage cfg w st pageConfig =
     (let out = processWebPost cfg w st (fst pageConfig)
      in case result out of
           Inr (Some c) \<Rightarrow>
             (after out,
              effects out @
                fst (sendDiscordMessage w pageConfig
                       (c\<lparr>media := media_at_delivery w c (callbacks out)\<rparr>)))
         | _ \<Rightarrow> (after out, effects out))"

text \<open>
  The monitoring loop runs \<^verbatim>\<open>monitorPage\<close> for a page once in every cycle that
  finds the network, and starts the next cycle only when the current one has settled.
  \<open>cycles\<close> is the sequence of these checks for one page, one world for each.
\<close>

fun cycles ::
  "config \<Rightarrow> string \<times> string \<Rightarrow> state \<Rightarrow> world list \<Rightarrow> state \<times> effect list" where
  "cycles cfg pageConfig st [] = (st, [])"
| "cycles cfg pageConfig st (w # ws) =
     (let (st1, e1) = monitorPage cfg w st pageConfig;
          (st2, e2) = cycles cfg pageConfig st1 ws
      in (st2, e1 @ e2))"

text \<open>The messages sent in a run, in order.\<close>

fun sent :: "effect list \<Rightarrow> message list" where
  "sent [] = []"
| "sent (Send ch m # es) = m # sent es"
| "sent (e # es) = sent es"

section \<open>Worlds and posts for the worked examples\<close>

definition cfg0 :: config where
  "cfg0 = \<lparr>FB_URL = ''https://www.facebook.com'', MEDIA_DIR = ''/app/media'',
           DATA_FILE = ''/app/storage.json''\<rparr>"

text \<open>A check in which every operation succeeds and the page shows the given articles.\<close>

definition fair_world :: "post_element list \<Rightarrow> world" where
  "fair_world arts =
     \<lparr>page_source = Loaded arts, quit_ok = True,
      now_iso = ''2024-05-01T10:00:00.000Z'', now_ms = 1714557600000,
      head_reply = (\<lambda>u. Some (Some ''4096'')),
      open_ok = (\<lambda>p. True), get_ok = (\<lambda>u. True), ffmpeg_ok = (\<lambda>p. True),
      close_ok = (\<lambda>p. True), write_ok = True, arrived = (\<lambda>i. True),
      channel_ok = True, file_size = (\<lambda>p. Some 300000), send_ok = True\<rparr>"

definition text_post :: "string option \<Rightarrow> string \<Rightarrow> post_element" where
  "text_post href msg =
     \<lparr>permalink_href = href, preview = None, message_text = msg, video_src = None,
      img_srcs = []\<rparr>"

definition empty_state :: state where
  "empty_state = load_storage None"

definition post200 :: post_element where
  "post200 = text_post (Some ''https://www.facebook.com/alpha/posts/200?ref=page'') ''hello''"

definition seen200 :: state where
  "seen200 =
     \<lparr>posts = [(''alpha'', \<lparr>seen_url = Some ''https://www.facebook.com/alpha/posts/200'',
                           seen_timestamp = ''2024-04-30T09:00:00.000Z''\<rparr>)],
      data_file = None\<rparr>"

text \<open>A post that is a link-preview card and also carries a video and an image.\<close>

definition link_post :: post_element where
  "link_post =
     \<lparr>permalink_href = Some ''https://www.facebook.com/alpha/posts/300'',
      preview =
        Some \<lparr>data_lynx_uri =
                 Some ''https://l.facebook.com/l.php?u=https%3A%2F%2Fexample.com%2Fnews&h=AT0x'',
               inner_href = None, closest_href = None, img_parent_href = None\<rparr>,
      message_text = ''read this'',
      video_src = Some (Some ''https://video.example.com/v.mp4''),
      img_srcs = [Some ''https://cdn.example.com/a.jpg'']\<rparr>"

text \<open>A post with a video and two images and no link preview.\<close>

definition media_post :: post_element where
  "media_post =
     \<lparr>permalink_href = Some ''https://www.facebook.com/alpha/posts/400'',
      preview = None,
      message_text = ''look'',
      video_src = Some (Some ''https://video.example.com/v.mp4''),
      img_srcs = [Some ''https://cdn.example.com/a.jpg'', Some ''/static/icon.png'']\<rparr>"

text \<open>A check in which every image is reported as 2048 bytes long.\<close>

definition small_image_world :: "post_element list \<Rightarrow> world" where
  "small_image_world arts = (fair_world arts)\<lparr>head_reply := (\<lambda>u. Some (Some ''2048''))\<rparr>"

text \<open>A delivery with one file at the cap, one below it, and one failed download.\<close>

definition sized_world :: world where
  "sized_world =
     (fair_world [])
       \<lparr>file_size :=
          (\<lambda>p. if p = ''/app/media/big.mp4'' then Some 25000000
               else if p = ''/app/media/small.jpg'' then Some 300000
               else None)\<rparr>"

definition mixed_content :: post_content where
  "mixed_content =
     \<lparr>body_text = ''look'',
      media = [\<lparr>kind = VideoType, path = Some ''/app/media/big.mp4''\<rparr>,
               \<lparr>kind = ImageType, path = Some ''/app/media/small.jpg''\<rparr>,
               \<lparr>kind = ImageType, path = None\<rparr>],
      url = Some ''https://www.facebook.com/alpha/posts/400'',
      embeddedLink = None,
      timestamp = ''2024-05-01T10:00:00.000Z''\<rparr>"

text \<open>Two posts with text only, a world in which the send fails, and a post with no permalink.\<close>

definition postA :: post_element where
  "postA = text_post (Some ''https://www.facebook.com/alpha/posts/100?ref=feed'') ''first''"

definition postB :: post_element where
  "postB = text_post (Some ''https://www.facebook.com/alpha/posts/101'') ''second''"

definition send_fails :: "world \<Rightarrow> world" where
  "send_fails w = w\<lparr>send_ok := False\<rparr>"

definition plain_post :: post_element where
  "plain_post = text_post None ''no link here''"

section \<open>The novel post of a check\<close>

text \<open>
  The novel post a check extracts, if any: the page loads, it has a first article, the
  article's permalink is not the stored one, and no exception leaves the extractor
  before the store is updated (the only one that can is that of
  \<^verbatim>\<open>downloadMedia\<close> for the video). \<open>novel_in\<close> is the same for given articles.
\<close>

definition novel_in ::
  "config \<Rightarrow> world \<Rightarrow> state \<Rightarrow> string \<Rightarrow> post_element list \<Rightarrow> post_element option" where
  "novel_in cfg w st pageName arts =
     (case arts of
        [] \<Rightarrow> None
      | post # _ \<Rightarrow>
          if is_seen st pageName (fullPostUrl post) then None
          else if extract_embedded_link (preview post) = None \<and>
                  isl (snd (video_step cfg w pageName post)) then None
          else Some post)"

definition novel_post :: "config \<Rightarrow> world \<Rightarrow> state \<Rightarrow> string \<Rightarrow> post_element option" where
  "novel_post cfg w st pageName =
     (case page_source w of
        Loaded arts \<Rightarrow> novel_in cfg w st pageName arts
      | _ \<Rightarrow> None)"

definition committed :: "world \<Rightarrow> state \<Rightarrow> string \<Rightarrow> post_element \<Rightarrow> state" where
  "committed w st pageName post =
     (let posts' =
            AList.update pageName
              \<lparr>seen_url = fullPostUrl post, seen_timestamp = now_iso w\<rparr> (posts st)
      in \<lparr>posts = posts', data_file = (if write_ok w then Some posts' else data_file st)\<rparr>)"

text \<open>The effects of fetching media: probing, opening, downloading, re-encoding, closing.\<close>

fun media_effect :: "effect \<Rightarrow> bool" where
  "media_effect (HttpHead u) = True"
| "media_effect (FileOpen p) = True"
| "media_effect (HttpGet u) = True"
| "media_effect (Transcode p) = True"
| "media_effect (FileClose p) = True"
| "media_effect e = False"

lemma after_finally_quit [simp]: "after (finally_quit w out) = after out"
  by (simp add: finally_quit_def)

lemma callbacks_finally_quit [simp]: "callbacks (finally_quit w out) = callbacks out"
  by (simp add: finally_quit_def)

lemma effects_finally_quit [simp]:
  "effects (finally_quit w out) = effects out @ [BrowserQuit]"
  by (simp add: finally_quit_def)

lemma result_finally_quit [simp]:
  "result (finally_quit w out) = (if quit_ok w then result out else Inl BrowserError)"
  by (simp add: finally_quit_def)

lemma after_store_and_return:
  "after (store_and_return cfg w st pageName c effs cbs) =
     \<lparr>posts = AList.update pageName \<lparr>seen_url = url c, seen_timestamp = timestamp c\<rparr> (posts st),
      data_file =
        (if write_ok w
         then Some (AList.update pageName
                      \<lparr>seen_url = url c, seen_timestamp = timestamp c\<rparr> (posts st))
         else data_file st)\<rparr>"
  by (simp add: store_and_return_def Let_def)

lemma effects_store_and_return:
  "effects (store_and_return cfg w st pageName c effs cbs) =
     effs @ [WriteStore (DATA_FILE cfg)
               (AList.update pageName \<lparr>seen_url = url c, seen_timestamp = timestamp c\<rparr>
                  (posts st))]"
  by (simp add: store_and_return_def Let_def)

lemma callbacks_store_and_return [simp]:
  "callbacks (store_and_return cfg w st pageName c effs cbs) = cbs"
  by (simp add: store_and_return_def Let_def)

lemma result_store_and_return:
  "result (store_and_return cfg w st pageName c effs cbs) =
     (if write_ok w then Inr (Some c) else Inl (FsError (DATA_FILE cfg)))"
  by (simp add: store_and_return_def Let_def)

lemma after_extractPost:
  "after (extractPost cfg w st pageName arts) =
     (case novel_in cfg w st pageName arts of
        None \<Rightarrow> st
      | Some post \<Rightarrow> committed w st pageName post)"
  by (cases arts)
     (auto simp: extractPost_def novel_in_def committed_def Let_def after_store_and_return
        split: prod.splits sum.splits)

lemma after_processWebPost:
  "after (processWebPost cfg w st pageName) =
     (case novel_post cfg w st pageName of
        None \<Rightarrow> st
      | Some post \<Rightarrow> committed w st pageName post)"
  by (cases "page_source w")
     (simp_all add: processWebPost_def novel_post_def Let_def after_extractPost)

lemma novel_post_not_seen:
  "novel_post cfg w st pageName = Some post \<Longrightarrow> \<not> is_seen st pageName (fullPostUrl post)"
  by (auto simp: novel_post_def novel_in_def split: page_result.splits list.splits if_splits)

lemma committed_record:
  "map_of (posts (committed w st pageName post)) pageName =
     Some \<lparr>seen_url = fullPostUrl post, seen_timestamp = now_iso w\<rparr>"
  by (simp add: committed_def Let_def update_conv')

lemma committed_changes:
  "\<not> is_seen st pageName (fullPostUrl post) \<Longrightarrow>
     map_of (posts (committed w st pageName post)) pageName \<noteq> map_of (posts st) pageName"
  by (auto simp: committed_record is_seen_def split: option.splits)

lemma write_effect_processWebPost:
  "novel_post cfg w st pageName = Some post \<Longrightarrow>
     WriteStore (DATA_FILE cfg) (posts (committed w st pageName post))
       \<in> set (effects (processWebPost cfg w st pageName))"
  by (auto simp: novel_post_def novel_in_def processWebPost_def extractPost_def Let_def
        committed_def effects_store_and_return
      split: page_result.splits list.splits if_splits prod.splits sum.splits)

section \<open>Decimal numbers as text\<close>

text \<open>The decimal text of a number reads back as that number.\<close>

lemma digit_of_digit_char: "d < 10 \<Longrightarrow> digit_of (digit_char d) = Some d"
proof -
  assume "d < 10"
  then have "d \<in> {0, 1, 2, 3, 4, 5, 6, 7, 8, 9}" by auto
  then show ?thesis by (auto simp: digit_char_def digit_of_def)
qed

lemma is_digit_digit_char: "d < 10 \<Longrightarrow> is_digit 10 (digit_char d)"
  by (simp add: is_digit_def digit_of_digit_char)

lemma digit_val_digit_char: "d < 10 \<Longrightarrow> digit_val (digit_char d) = d"
  by (simp add: digit_val_def digit_of_digit_char)

lemma show_nat_digits: "c \<in> set (show_nat n) \<Longrightarrow> is_digit 10 c"
proof (induction n rule: show_nat.induct)
  case (1 n)
  show ?case
  proof (cases "n < 10")
    case True
    with "1.prems" show ?thesis
      by (subst (asm) show_nat.simps) (simp add: is_digit_digit_char)
  next
    case False
    with "1.prems" have "c \<in> set (show_nat (n div 10)) \<or> c = digit_char (n mod 10)"
      by (subst (asm) show_nat.simps) auto
    with "1.IH" False show ?thesis
      by (auto simp: is_digit_digit_char)
  qed
qed

lemma show_nat_not_Nil: "show_nat n \<noteq> []"
  by (subst show_nat.simps) simp

lemma digits_value_snoc:
  "digits_value radix (ds @ [c]) = digits_value radix ds * radix + digit_val c"
  by (simp add: digits_value_def)

lemma digits_value_show_nat: "digits_value 10 (show_nat n) = n"
proof (induction n rule: show_nat.induct)
  case (1 n)
  show ?case
  proof (cases "n < 10")
    case True
    then show ?thesis
      by (subst show_nat.simps) (simp add: digits_value_def digit_val_digit_char)
  next
    case False
    with "1.IH" show ?thesis
      by (subst show_nat.simps) (simp add: digits_value_snoc digit_val_digit_char)
  qed
qed

lemma is_digit_10_range: "is_digit 10 c \<Longrightarrow> 48 \<le> (of_char c :: nat) \<and> (of_char c :: nat) \<le> 57"
  by (auto simp: is_digit_def digit_of_def Let_def split: if_splits option.splits)

lemma is_digit_10_plain:
  "is_digit 10 c \<Longrightarrow>
     \<not> is_space c \<and> c \<noteq> CHR ''-'' \<and> c \<noteq> CHR ''+'' \<and> c \<noteq> CHR ''x'' \<and> c \<noteq> CHR ''X''"
  by (auto dest!: is_digit_10_range simp: is_space_def)

lemma parseInt_digits:
  assumes ne: "ds \<noteq> []" and dg: "\<forall>c \<in> set ds. is_digit 10 c"
  shows "parseInt ds = Num (int (digits_value 10 ds))"
proof -
  from ne obtain c cs where ds: "ds = c # cs" by (cases ds) auto
  with dg have c: "is_digit 10 c" by simp
  note p = is_digit_10_plain [OF c]
  from ds p have sp: "dropWhile is_space ds = ds" by simp
  from ds p have sg: "\<not> starts_with ''-'' ds" "\<not> starts_with ''+'' ds"
    by (simp_all add: starts_with_def)
  have hx: "\<not> starts_with ''0x'' ds" "\<not> starts_with ''0X'' ds"
  proof -
    have "cs \<noteq> [] \<Longrightarrow> is_digit 10 (hd cs)"
      using dg ds by (cases cs) auto
    then have "cs \<noteq> [] \<Longrightarrow> hd cs \<noteq> CHR ''x'' \<and> hd cs \<noteq> CHR ''X''"
      using is_digit_10_plain by blast
    then show "\<not> starts_with ''0x'' ds" "\<not> starts_with ''0X'' ds"
      using ds by (cases cs; auto simp: starts_with_def)+
  qed
  from dg have tw: "takeWhile (is_digit 10) ds = ds"
    by (simp add: takeWhile_eq_all_conv)
  from sp sg hx ne show ?thesis
    by (simp add: parseInt_def Let_def tw)
qed

lemma parseInt_show_nat: "parseInt (show_nat n) = Num (int n)"
  using parseInt_digits [of "show_nat n"] show_nat_not_Nil show_nat_digits
  by (simp add: digits_value_show_nat)

section \<open>Facts about delivery and about checks in sequence\<close>

text \<open>
  A content is well formed when an embedded link goes with an empty media list and no
  media item has the empty string as its path. Every content that reaches the delivery
  is well formed (\<open>delivered_well_formed\<close> below).
\<close>

definition well_formed :: "post_content \<Rightarrow> bool" where
  "well_formed c =
     ((embeddedLink c \<noteq> None \<longrightarrow> media c = []) \<and> (\<forall>m \<in> set (media c). path m \<noteq> Some []))"

lemma attach_media_effects: "e \<in> set (fst (attach_media w m)) \<Longrightarrow> \<exists>p. e = FileStat p"
  by (auto simp: attach_media_def split: if_splits option.splits)

lemma attach_media_paths:
  "p \<in> set (snd (attach_media w m)) \<longleftrightarrow>
     truthy (path m) \<and> p = to_string (path m) \<and>
     (\<exists>sz. file_size w p = Some sz \<and> sz < 25000000)"
  by (auto simp: attach_media_def split: if_splits option.splits)

text \<open>
  The parts of \<^verbatim>\<open>sendDiscordMessage\<close> by name: the paths pushed on
  \<^verbatim>\<open>filesToDelete\<close>, the effects of the loop over the media, and the message.
\<close>

definition to_delete :: "world \<Rightarrow> post_content \<Rightarrow> string list" where
  "to_delete w c =
     concat (map snd (if link_of c \<noteq> None then [] else map (attach_media w) (media c)))"

definition stats_of :: "world \<Rightarrow> post_content \<Rightarrow> effect list" where
  "stats_of w c =
     concat (map fst (if link_of c \<noteq> None then [] else map (attach_media w) (media c)))"

definition message_of :: "world \<Rightarrow> string \<Rightarrow> post_content \<Rightarrow> message" where
  "message_of w pageName c =
     \<lparr>content =
        ''**'' @ pageName @ ''**'' @ [CHR 0x0A] @ body_text c @
          (case link_of c of None \<Rightarrow> [] | Some u \<Rightarrow> link_line u),
      files = map (\<lambda>p. \<lparr>attachment = p, file_name = basename p\<rparr>) (to_delete w c)\<rparr>"

lemma effects_sendDiscordMessage:
  "fst (sendDiscordMessage w pc c) =
     (if \<not> channel_ok w then [ChannelFetch (snd pc)]
      else [ChannelFetch (snd pc)] @ stats_of w c @ [Send (snd pc) (message_of w (fst pc) c)] @
           (if send_ok w then map Unlink (to_delete w c) else []))"
  by (simp add: sendDiscordMessage_def Let_def to_delete_def stats_of_def message_of_def)

lemma stats_of_effects: "e \<in> set (stats_of w c) \<Longrightarrow> \<exists>p. e = FileStat p"
  by (auto simp: stats_of_def dest: attach_media_effects split: if_splits)

lemma to_delete_sizes:
  "p \<in> set (to_delete w c) \<Longrightarrow> \<exists>sz. file_size w p = Some sz \<and> sz < 25000000"
  by (auto simp: to_delete_def attach_media_paths split: if_splits)

lemma to_delete_all:
  assumes wf: "well_formed c" and m: "m \<in> set (media c)" and p: "path m = Some p"
    and s: "file_size w p = Some sz" and c: "sz < 25000000"
  shows "p \<in> set (to_delete w c)"
proof -
  from wf m have "embeddedLink c = None" and "path m \<noteq> Some []"
    by (auto simp: well_formed_def)
  with p have l: "link_of c = None" and t: "truthy (path m)"
    by (simp_all add: link_of_def)
  from t p s c have "p \<in> set (snd (attach_media w m))"
    by (simp add: attach_media_paths)
  with l m show ?thesis by (auto simp: to_delete_def)
qed

lemma attachments_message_of:
  "attachment ` set (files (message_of w pageName c)) = set (to_delete w c)"
  by (auto simp: message_of_def image_iff)

lemma media_path_not_Nil: "media_path cfg w pageName type index \<noteq> []"
  by (simp add: media_path_def path_join_def)

lemma downloadMedia_path_not_Nil:
  "snd (downloadMedia cfg w pageName src type index) = Inr r \<Longrightarrow> r \<noteq> Some []"
  using media_path_not_Nil [of cfg w pageName type index]
  by (auto simp: downloadMedia_def download_try_def Let_def split: if_splits prod.splits)

lemma video_step_paths:
  "video_step cfg w pageName post = (effs, Inr vs) \<Longrightarrow> m \<in> set vs \<Longrightarrow> path m \<noteq> Some []"
  by (auto simp: video_step_def split: option.splits if_splits prod.splits sum.splits
      dest: downloadMedia_path_not_Nil [OF sndI])

lemma imageCallback_pushed_path:
  "snd (imageCallback cfg w pageName i src) = Pushed m \<Longrightarrow> path m \<noteq> Some []"
  by (auto simp: imageCallback_def split: option.splits if_splits prod.splits sum.splits
      dest: downloadMedia_path_not_Nil [OF sndI])

lemma image_callbacks_pushed_path:
  "cb \<in> set (image_callbacks cfg w pageName srcs) \<Longrightarrow> snd cb = Pushed m \<Longrightarrow>
     path m \<noteq> Some []"
  by (auto simp: image_callbacks_def dest: imageCallback_pushed_path)

lemma processWebPost_returns:
  assumes r: "result (processWebPost cfg w st pageName) = Inr (Some c)"
  shows "\<exists>post rest.
           page_source w = Loaded (post # rest) \<and>
           embeddedLink c = extract_embedded_link (preview post) \<and>
           (embeddedLink c \<noteq> None \<longrightarrow>
              media c = [] \<and> callbacks (processWebPost cfg w st pageName) = []) \<and>
           (embeddedLink c = None \<longrightarrow>
              (\<exists>effs. video_step cfg w pageName post = (effs, Inr (media c))) \<and>
              callbacks (processWebPost cfg w st pageName)
                = image_callbacks cfg w pageName (img_srcs post))"
proof -
  from r obtain arts where l: "page_source w = Loaded arts"
    by (cases "page_source w") (auto simp: processWebPost_def split: if_splits)
  with r obtain post rest where a: "arts = post # rest"
    by (cases arts) (auto simp: processWebPost_def extractPost_def Let_def split: if_splits)
  from r l a show ?thesis
    by (auto simp: processWebPost_def extractPost_def Let_def result_store_and_return
        split: if_splits prod.splits sum.splits)
qed

lemma media_at_delivery_set:
  "m \<in> set (media_at_delivery w c cbs) \<Longrightarrow>
     m \<in> set (media c) \<or> (\<exists>cb \<in> set cbs. snd cb = Pushed m)"
  by (auto simp: media_at_delivery_def enumerate_eq_zip in_set_zip
      split: callback_result.splits if_splits)
     (metis nth_mem snd_conv)

lemma delivered_well_formed:
  assumes r: "result (processWebPost cfg w st pageName) = Inr (Some c)"
  shows "well_formed
           (c\<lparr>media := media_at_delivery w c (callbacks (processWebPost cfg w st pageName))\<rparr>)"
proof -
  from processWebPost_returns [OF r] obtain post rest where
    l: "page_source w = Loaded (post # rest)"
    and e: "embeddedLink c \<noteq> None \<longrightarrow>
          media c = [] \<and> callbacks (processWebPost cfg w st pageName) = []"
    and n: "embeddedLink c = None \<longrightarrow>
              (\<exists>effs. video_step cfg w pageName post = (effs, Inr (media c))) \<and>
              callbacks (processWebPost cfg w st pageName)
                = image_callbacks cfg w pageName (img_srcs post)"
    by (elim exE conjE) (rule that)
  have p: "path m \<noteq> Some []"
    if m: "m \<in> set (media_at_delivery w c (callbacks (processWebPost cfg w st pageName)))"
    for m
  proof (cases "embeddedLink c")
    case None
    with n obtain effs where v: "video_step cfg w pageName post = (effs, Inr (media c))"
      and cb: "callbacks (processWebPost cfg w st pageName)
                = image_callbacks cfg w pageName (img_srcs post)"
      by blast
    from media_at_delivery_set [OF m] show ?thesis
      using video_step_paths [OF v] image_callbacks_pushed_path cb by auto
  next
    case (Some l)
    with e m show ?thesis by (simp add: media_at_delivery_def)
  qed
  from e have "embeddedLink c \<noteq> None \<longrightarrow>
      media_at_delivery w c (callbacks (processWebPost cfg w st pageName)) = []"
    by (auto simp: media_at_delivery_def)
  with p show ?thesis by (simp add: well_formed_def)
qed

lemma sent_append [simp]: "sent (xs @ ys) = sent xs @ sent ys"
  by (induction xs rule: sent.induct) simp_all

lemma sent_map_Unlink [simp]: "sent (map Unlink ps) = []"
  by (induction ps) simp_all

lemma sent_stats_of [simp]: "sent (stats_of w c) = []"
proof -
  have "\<forall>e \<in> set es. \<exists>p. e = FileStat p \<Longrightarrow> sent es = []" for es
    by (induction es rule: sent.induct) auto
  then show ?thesis using stats_of_effects by blast
qed

lemma sent_downloadMedia [simp]:
  "sent (fst (downloadMedia cfg w pageName src type index)) = []"
  by (simp add: downloadMedia_def download_try_def Let_def split: prod.splits)

lemma sent_video_step [simp]: "sent (fst (video_step cfg w pageName post)) = []"
proof (cases "video_src post")
  case None
  then show ?thesis by (simp add: video_step_def)
next
  case (Some videoSrc)
  show ?thesis
  proof (cases "truthy videoSrc")
    case True
    obtain effs r where d: "downloadMedia cfg w pageName (to_string videoSrc) VideoType 0 = (effs, r)"
      by (cases "downloadMedia cfg w pageName (to_string videoSrc) VideoType 0")
    with sent_downloadMedia [of cfg w pageName "to_string videoSrc" VideoType 0]
    have "sent effs = []" by simp
    with Some True d show ?thesis
      by (cases r) (simp_all add: video_step_def)
  next
    case False
    with Some show ?thesis by (simp add: video_step_def)
  qed
qed

lemma sent_extractPost [simp]: "sent (effects (extractPost cfg w st pageName arts)) = []"
proof (cases arts)
  case Nil
  then show ?thesis by (simp add: extractPost_def)
next
  case (Cons post rest)
  obtain effs r where v: "video_step cfg w pageName post = (effs, r)"
    by (cases "video_step cfg w pageName post")
  with sent_video_step [of cfg w pageName post] have "sent effs = []" by simp
  with Cons v show ?thesis
    by (cases r) (simp_all add: extractPost_def Let_def effects_store_and_return)
qed

lemma sent_processWebPost [simp]: "sent (effects (processWebPost cfg w st pageName)) = []"
  by (cases "page_source w") (simp_all add: processWebPost_def Let_def)

lemma sent_sendDiscordMessage:
  "sent (fst (sendDiscordMessage w pc c)) =
     (if channel_ok w then [message_of w (fst pc) c] else [])"
  by (simp add: effects_sendDiscordMessage)

text \<open>The content handed to the delivery, if the check gets that far.\<close>

definition delivered :: "config \<Rightarrow> world \<Rightarrow> state \<Rightarrow> string \<Rightarrow> post_content option" where
  "delivered cfg w st pageName =
     (case result (processWebPost cfg w st pageName) of
        Inr (Some c) \<Rightarrow>
          Some (c\<lparr>media := media_at_delivery w c (callbacks (processWebPost cfg w st pageName))\<rparr>)
      | _ \<Rightarrow> None)"

lemma monitorPage_eq:
  "monitorPage cfg w st pc =
     (after (processWebPost cfg w st (fst pc)),
      effects (processWebPost cfg w st (fst pc)) @
        (case delivered cfg w st (fst pc) of
           None \<Rightarrow> []
         | Some c \<Rightarrow> fst (sendDiscordMessage w pc c)))"
  by (simp add: monitorPage_def delivered_def Let_def split: sum.splits option.splits)

lemma fst_monitorPage:
  "fst (monitorPage cfg w st pc) =
     (case novel_post cfg w st (fst pc) of
        None \<Rightarrow> st
      | Some post \<Rightarrow> committed w st (fst pc) post)"
  by (simp add: monitorPage_eq after_processWebPost)

lemma sent_monitorPage:
  "sent (snd (monitorPage cfg w st pc)) =
     (case delivered cfg w st (fst pc) of
        None \<Rightarrow> []
      | Some c \<Rightarrow> if channel_ok w then [message_of w (fst pc) c] else [])"
  by (simp add: monitorPage_eq sent_sendDiscordMessage split: option.splits)

lemma result_needs_novel:
  "result (processWebPost cfg w st pageName) = Inr (Some c) \<Longrightarrow>
     \<exists>post. novel_post cfg w st pageName = Some post \<and> url c = fullPostUrl post"
proof -
  assume r: "result (processWebPost cfg w st pageName) = Inr (Some c)"
  then obtain arts where l: "page_source w = Loaded arts"
    by (cases "page_source w") (auto simp: processWebPost_def split: if_splits)
  with r obtain post rest where a: "arts = post # rest"
    by (cases arts) (auto simp: processWebPost_def extractPost_def Let_def split: if_splits)
  from r l a show ?thesis
    by (auto simp: processWebPost_def extractPost_def Let_def result_store_and_return
          novel_post_def novel_in_def
        split: if_splits prod.splits sum.splits)
qed

lemma delivered_needs_novel:
  "delivered cfg w st pageName = Some c \<Longrightarrow> \<exists>post. novel_post cfg w st pageName = Some post"
  by (auto simp: delivered_def split: sum.splits option.splits dest: result_needs_novel)

text \<open>The first article of the page, when there is one, has the permalink \<open>u\<close>.\<close>

definition shows_same :: "string option \<Rightarrow> world \<Rightarrow> bool" where
  "shows_same u w =
     (case page_source w of
        Loaded (post # _) \<Rightarrow> fullPostUrl post = u
      | _ \<Rightarrow> True)"

lemma novel_post_None_same:
  "map_of (posts st) pageName = Some r \<Longrightarrow> shows_same (seen_url r) w \<Longrightarrow>
     novel_post cfg w st pageName = None"
  by (auto simp: shows_same_def novel_post_def novel_in_def is_seen_def
      split: page_result.splits list.splits)

lemma monitorPage_same:
  assumes m: "map_of (posts st) (fst pc) = Some r" and s: "shows_same (seen_url r) w"
  shows "fst (monitorPage cfg w st pc) = st \<and> sent (snd (monitorPage cfg w st pc)) = []"
proof -
  from novel_post_None_same [OF m s] have n: "novel_post cfg w st (fst pc) = None" .
  then have "delivered cfg w st (fst pc) = None"
    using delivered_needs_novel [of cfg w st "fst pc"] by (cases "delivered cfg w st (fst pc)") auto
  with n show ?thesis by (simp add: fst_monitorPage sent_monitorPage)
qed

lemma cycles_same:
  "map_of (posts st) (fst pc) = Some r \<Longrightarrow> \<forall>w \<in> set ws. shows_same (seen_url r) w \<Longrightarrow>
     fst (cycles cfg pc st ws) = st \<and> sent (snd (cycles cfg pc st ws)) = []"
proof (induction ws)
  case Nil
  then show ?case by simp
next
  case (Cons w ws)
  from Cons.prems have s: "shows_same (seen_url r) w" by simp
  from monitorPage_same [OF Cons.prems(1) s, of cfg]
  have a: "fst (monitorPage cfg w st pc) = st" and b: "sent (snd (monitorPage cfg w st pc)) = []"
    by simp_all
  from Cons.IH Cons.prems
  have c: "fst (cycles cfg pc st ws) = st" and d: "sent (snd (cycles cfg pc st ws)) = []"
    by simp_all
  from a b c d show ?case
    by (simp add: split_beta Let_def)
qed

lemma Send_in_sent: "Send ch m \<in> set es \<Longrightarrow> m \<in> set (sent es)"
  by (induction es rule: sent.induct) auto

lemma effects_processWebPost_novel:
  assumes n: "novel_post cfg w st pageName = Some post"
  shows "\<exists>veffs. effects (processWebPost cfg w st pageName)
           = (PageLoad (page_url cfg pageName) # veffs) @
               WriteStore (DATA_FILE cfg) (posts (committed w st pageName post)) #
               [BrowserQuit] \<and>
           sent veffs = []"
proof -
  from n obtain rest where l: "page_source w = Loaded (post # rest)"
    and s: "\<not> is_seen st pageName (fullPostUrl post)"
    by (auto simp: novel_post_def novel_in_def split: page_result.splits list.splits if_splits)
  obtain effs r where v: "video_step cfg w pageName post = (effs, r)"
    by (cases "video_step cfg w pageName post")
  with sent_video_step [of cfg w pageName post] have se: "sent effs = []" by simp
  show ?thesis
  proof (cases "extract_embedded_link (preview post)")
    case (Some link)
    with l s have "effects (processWebPost cfg w st pageName)
           = (PageLoad (page_url cfg pageName) # []) @
               WriteStore (DATA_FILE cfg) (posts (committed w st pageName post)) #
               [BrowserQuit]"
      by (simp add: processWebPost_def extractPost_def Let_def effects_store_and_return
          committed_def)
    then show ?thesis by (intro exI [where x = "[]"]) simp
  next
    case None
    with n l s v obtain vs where r: "r = Inr vs"
      by (cases r) (auto simp: novel_post_def novel_in_def)
    with None l s v have "effects (processWebPost cfg w st pageName)
           = (PageLoad (page_url cfg pageName) # effs) @
               WriteStore (DATA_FILE cfg) (posts (committed w st pageName post)) #
               [BrowserQuit]"
      by (simp add: processWebPost_def extractPost_def Let_def effects_store_and_return
          committed_def)
    with se show ?thesis by (intro exI [where x = effs]) simp
  qed
qed

text \<open>A check that finds a novel post with text only, everything else succeeding.\<close>

lemma monitorPage_text_post:
  assumes l: "page_source w = Loaded [text_post href msg]"
    and q: "quit_ok w" and wr: "write_ok w" and k: "channel_ok w"
    and n: "\<not> is_seen st pageName (fullPostUrl (text_post href msg))"
  shows "fst (monitorPage cfg w st (pageName, ch))
           = committed w st pageName (text_post href msg)"
    and "sent (snd (monitorPage cfg w st (pageName, ch)))
           = [\<lparr>content = ''**'' @ pageName @ ''**'' @ [CHR 0x0A] @ trim msg, files = []\<rparr>]"
proof -
  have e: "extract_embedded_link (preview (text_post href msg)) = None"
    by (simp add: extract_embedded_link_def text_post_def)
  have v: "video_step cfg w pageName (text_post href msg) = ([], Inr [])"
    by (simp add: video_step_def text_post_def)
  from l n e v have np: "novel_post cfg w st pageName = Some (text_post href msg)"
    by (simp add: novel_post_def novel_in_def)
  then show "fst (monitorPage cfg w st (pageName, ch))
           = committed w st pageName (text_post href msg)"
    by (simp add: fst_monitorPage)
  let ?c = "\<lparr>body_text = trim msg, media = [], url = fullPostUrl (text_post href msg),
             embeddedLink = None, timestamp = now_iso w\<rparr>"
  from l n e v q wr have r: "result (processWebPost cfg w st pageName) = Inr (Some ?c)"
    by (simp add: processWebPost_def extractPost_def Let_def result_store_and_return
        text_post_def)
  from l n e v have cb: "callbacks (processWebPost cfg w st pageName) = []"
    by (simp add: processWebPost_def extractPost_def Let_def image_callbacks_def text_post_def)
  from r cb have d: "delivered cfg w st pageName = Some ?c"
    by (simp add: delivered_def media_at_delivery_def)
  with k show "sent (snd (monitorPage cfg w st (pageName, ch)))
           = [\<lparr>content = ''**'' @ pageName @ ''**'' @ [CHR 0x0A] @ trim msg, files = []\<rparr>]"
    by (simp add: sent_monitorPage message_of_def link_of_def to_delete_def)
qed

lemma is_seen_committed:
  "is_seen (committed w st pageName post) pageName u \<longleftrightarrow> fullPostUrl post = u"
  by (simp add: is_seen_def committed_record)

section \<open>Properties of the check interval\<close>

lemma split_on_not_Nil: "split_on c s \<noteq> []"
  by (induction s) (auto split: list.splits)

text \<open>A pattern whose first field does not begin with \<^verbatim>\<open>*/\<close> is rejected.\<close>

lemma parseCheckInterval_rejects:
  "\<not> starts_with ''*/'' (hd (split_on CHR '' '' p)) \<Longrightarrow>
     parseCheckInterval p = Inl (Error ''Only simple interval cron patterns are supported'')"
  using split_on_not_Nil [of "CHR '' ''" p]
  by (cases "split_on CHR '' '' p") (simp_all add: parseCheckInterval_def)

text \<open>A first field \<^verbatim>\<open>*/N\<close>, with \<open>N\<close> in decimal, gives \<open>N\<close> times 60000 milliseconds.\<close>

lemma split_on_first:
  "c \<notin> set xs \<Longrightarrow> split_on c (xs @ c # ys) = xs # split_on c ys"
  by (induction xs) auto

lemma split_on_single: "c \<notin> set xs \<Longrightarrow> split_on c xs = [xs]"
  by (induction xs) auto

lemma show_nat_no_space: "CHR '' '' \<notin> set (show_nat n)"
  using show_nat_digits [of "CHR '' ''" n] is_digit_10_plain [of "CHR '' ''"]
  by (auto simp: is_space_def)

lemma parseCheckInterval_every_n_minutes:
  "parseCheckInterval (''*/'' @ show_nat n @ CHR '' '' # others) = Inr (Num (int n * 60000))"
proof -
  have "CHR '' '' \<notin> set (''*/'' @ show_nat n)"
    using show_nat_no_space [of n] by simp
  from split_on_first [OF this, of others]
  have "split_on CHR '' '' (''*/'' @ show_nat n @ CHR '' '' # others)
          = (''*/'' @ show_nat n) # split_on CHR '' '' others"
    by simp
  then show ?thesis
    by (simp add: parseCheckInterval_def starts_with_def parseInt_show_nat)
qed

text \<open>
  C9. The claim: a pattern that is not of the form "every N minutes" (first field
  \<^verbatim>\<open>*/N\<close>) makes the parser throw, and a pattern of that form gives N times 60000
  milliseconds. The parser only tests that the first field begins with \<^verbatim>\<open>*/\<close>; what
  follows is handed to \<^verbatim>\<open>parseInt\<close> and its result is never checked. For the pattern
  \<^verbatim>\<open>*/abc * * * *\<close>, which names no number of minutes, the parser does not throw: it
  returns \<open>NaN\<close> as the interval.
\<close>

theorem parseCheckInterval_no_number_returns_NaN:
  "parseCheckInterval ''*/abc * * * *'' = Inr NaN"
  by (simp add: parseCheckInterval_def starts_with_def parseInt_def is_space_def
      is_digit_def digit_of_def)

section \<open>Properties of the URL normalizer\<close>

lemma decode_layers_fixed: "decode_layers c = Some r \<Longrightarrow> decode_layers r = Some r"
proof (induction c rule: decode_layers.induct)
  case (1 c)
  from "1.prems" obtain d where d: "decodeURIComponent c = Some d"
    by (subst (asm) decode_layers.simps) (auto split: option.splits)
  show ?case
  proof (cases "starts_with ''http'' d \<and> d \<noteq> c")
    case True
    with d "1.prems" have "decode_layers d = Some r"
      by (subst (asm) decode_layers.simps) (simp add: Let_def)
    with "1.IH" [OF d] True show ?thesis by (simp add: Let_def)
  next
    case False
    with d "1.prems" have "r = c"
      by (subst (asm) decode_layers.simps) (auto simp: Let_def split: if_splits)
    with d False show ?thesis
      by (subst decode_layers.simps) (auto simp: Let_def)
  qed
qed

lemma tokens_no_percent: "CHR ''%'' \<notin> set s \<Longrightarrow> tokens s = Some (map Lit s)"
  by (induction s) auto

lemma utf8_ok_Lit: "utf8_ok (map Lit s)"
  by (induction s) auto

lemma decodeURIComponent_no_percent:
  "CHR ''%'' \<notin> set s \<Longrightarrow> decodeURIComponent s = Some s"
  by (simp add: decodeURIComponent_def tokens_no_percent utf8_ok_Lit comp_def)

lemma decode_layers_no_percent: "CHR ''%'' \<notin> set s \<Longrightarrow> decode_layers s = Some s"
  by (subst decode_layers.simps) (simp add: decodeURIComponent_no_percent Let_def)

text \<open>
  C4. The claim: the normalizer is idempotent on every input, and a redirect URL that
  carries a percent-encoded target in its \<^verbatim>\<open>u\<close> parameter normalizes to exactly the
  decoded target. Neither holds in general. The wrapper parameters are unwrapped once,
  so a target that itself has a \<^verbatim>\<open>u\<close> parameter is unwrapped again by a second
  application; and the loop over encoding layers also decodes the escapes that belong
  to the target (\<^verbatim>\<open>%20\<close> in its path becomes a space).
\<close>

theorem extractUrl_counterexample:
  "extractUrl (extractUrl ''http://r.com/?u=http%3A%2F%2Fa.com%2F%3Fu%3Dhttp%3A%2F%2Fb.com'')
     \<noteq> extractUrl ''http://r.com/?u=http%3A%2F%2Fa.com%2F%3Fu%3Dhttp%3A%2F%2Fb.com'' \<and>
   decodeURIComponent ''http%3A%2F%2Fa.com%2Fa%2520b'' = Some ''http://a.com/a%20b'' \<and>
   extractUrl ''http://r.com/?u=http%3A%2F%2Fa.com%2Fa%2520b'' \<noteq> ''http://a.com/a%20b''"
  by code_simp

text \<open>
  C4, as the code has it. Normalizing twice gives the same as normalizing once whenever
  the normalized string is not again a URL with a \<^verbatim>\<open>u\<close> or \<^verbatim>\<open>url\<close> parameter. A
  URL whose query has the parameter \<^verbatim>\<open>u\<close> and no parameter \<^verbatim>\<open>url\<close> normalizes to the
  value of \<^verbatim>\<open>u\<close> (as \<^verbatim>\<open>searchParams.get\<close> decodes it) whenever that value has no
  \<^verbatim>\<open>%\<close> in it.
\<close>

theorem extractUrl_nearby:
  "(\<not> has_wrapper (extractUrl x) \<longrightarrow> extractUrl (extractUrl x) = extractUrl x) \<and>
   (URL_searchParams y = Some urlParams \<and> map_of urlParams ''u'' = Some t \<and>
    map_of urlParams ''url'' = None \<and> CHR ''%'' \<notin> set t \<longrightarrow> extractUrl y = t)"
proof (intro conjI impI)
  assume nw: "\<not> has_wrapper (extractUrl x)"
  show "extractUrl (extractUrl x) = extractUrl x"
  proof (cases "extractUrl_try x")
    case None
    then show ?thesis by (simp add: extractUrl_def)
  next
    case (Some r)
    then have r: "extractUrl x = r" by (simp add: extractUrl_def)
    from Some obtain c where "decode_layers c = Some r"
      by (auto simp: extractUrl_try_def split: option.splits)
    then have fx: "decode_layers r = Some r" by (rule decode_layers_fixed)
    have "extractUrl r = r"
    proof (cases "URL_searchParams r")
      case None
      then show ?thesis by (simp add: extractUrl_def extractUrl_try_def)
    next
      case (Some ps)
      with nw r have "map_of ps ''u'' = None" "map_of ps ''url'' = None"
        by (simp_all add: has_wrapper_def)
      with Some fx show ?thesis
        by (simp add: extractUrl_def extractUrl_try_def unwrap_param_def)
    qed
    then show ?thesis by (simp only: r)
  qed
next
  assume h: "URL_searchParams y = Some urlParams \<and> map_of urlParams ''u'' = Some t \<and>
    map_of urlParams ''url'' = None \<and> CHR ''%'' \<notin> set t"
  then show "extractUrl y = t"
    by (simp add: extractUrl_def extractUrl_try_def unwrap_param_def
        decodeURIComponent_no_percent decode_layers_no_percent)
qed

theorem extractUrl_nearby_witness:
  "\<not> has_wrapper (extractUrl ''https://l.facebook.com/l.php?u=https%3A%2F%2Fexample.com%2Fnews&h=AT0x'') \<and>
   extractUrl (extractUrl ''https://l.facebook.com/l.php?u=https%3A%2F%2Fexample.com%2Fnews&h=AT0x'')
     = extractUrl ''https://l.facebook.com/l.php?u=https%3A%2F%2Fexample.com%2Fnews&h=AT0x'' \<and>
   URL_searchParams ''https://l.facebook.com/l.php?u=https%3A%2F%2Fexample.com%2Fnews&h=AT0x''
     = Some [(''u'', ''https://example.com/news''), (''h'', ''AT0x'')] \<and>
   extractUrl ''https://l.facebook.com/l.php?u=https%3A%2F%2Fexample.com%2Fnews&h=AT0x''
     = ''https://example.com/news''"
proof -
  let ?x = "''https://l.facebook.com/l.php?u=https%3A%2F%2Fexample.com%2Fnews&h=AT0x''"
  let ?ps = "[(''u'', ''https://example.com/news''), (''h'', ''AT0x'')]"
  have a: "\<not> has_wrapper (extractUrl ?x)" by code_simp
  have b: "URL_searchParams ?x = Some ?ps" by code_simp
  have c: "map_of ?ps ''u'' = Some ''https://example.com/news''" by simp
  have d: "map_of ?ps ''url'' = None" by simp
  have e: "CHR ''%'' \<notin> set ''https://example.com/news''" by simp
  from extractUrl_nearby [of ?x ?x ?ps "''https://example.com/news''"] a b c d e
  show ?thesis by blast
qed

section \<open>The media fetcher and exceptions\<close>

text \<open>
  Inside its \<^verbatim>\<open>try\<close> block the fetcher turns every failure into \<^verbatim>\<open>null\<close>: with the
  file opened and closed without error it always returns, and it returns \<^verbatim>\<open>null\<close>
  when the download or the re-encoding fails.
\<close>

lemma downloadMedia_returns_when_files_work:
  "open_ok w (media_path cfg w pageName type index) \<Longrightarrow>
   close_ok w (media_path cfg w pageName type index) \<Longrightarrow>
     \<exists>r. snd (downloadMedia cfg w pageName src type index) = Inr r"
  by (simp add: downloadMedia_def Let_def split: prod.splits)

lemma downloadMedia_null_on_network_or_encode_failure:
  "open_ok w (media_path cfg w pageName type index) \<Longrightarrow>
   close_ok w (media_path cfg w pageName type index) \<Longrightarrow>
   \<not> get_ok w src \<or> (type = VideoType \<and> \<not> ffmpeg_ok w (media_path cfg w pageName type index)) \<Longrightarrow>
     snd (downloadMedia cfg w pageName src type index) = Inr None"
  by (auto simp: downloadMedia_def download_try_def Let_def split: prod.splits)

text \<open>
  C5. The claim: the fetcher returns \<^verbatim>\<open>null\<close> and never throws, whatever fails. The
  call \<^verbatim>\<open>await open(filePath, 'w')\<close> stands before the \<^verbatim>\<open>try\<close>: when it fails (the
  media directory is missing, say) the exception leaves the function.
\<close>

theorem downloadMedia_throws_when_open_fails:
  "downloadMedia cfg0 ((fair_world [])\<lparr>open_ok := (\<lambda>p. False)\<rparr>) ''alpha''
     ''https://video.example.com/v.mp4'' VideoType 0
   = ([FileOpen ''/app/media/alpha_1714557600000_0.mp4''],
      Inl (FsError ''/app/media/alpha_1714557600000_0.mp4''))"
proof -
  have sn: "show_nat 1714557600000 = ''1714557600000''"
    by (simp add: show_nat.simps digit_char_def)
  have s0: "show_nat 0 = ''0''"
    by (simp add: show_nat.simps digit_char_def)
  show ?thesis
    by (simp add: downloadMedia_def media_path_def media_filename_def path_join_def
        fair_world_def cfg0_def sn s0 Let_def)
qed

section \<open>The record of a page and the novel post\<close>

text \<open>
  C1. In every check of every page, the page's record in the store changes if and
  only if the check extracts a novel post. A duplicate (the extracted permalink equals
  the stored url) leaves the state as it was; so does a failed extraction (the browser
  fails, the page has no article, or the video download throws). When a novel post is
  extracted, the record is set to its url and the time of the check, the data file is
  rewritten from the whole store, and after a write that succeeds the file holds the
  store in memory. (A write that fails, or a browser that fails to quit, makes the
  function throw after the record in memory has been set: these come after the
  extraction and do not undo the update.)
\<close>

theorem processWebPost_updates_record_iff_novel:
  "(map_of (posts (after (processWebPost cfg w st pageName))) pageName
       \<noteq> map_of (posts st) pageName
      \<longleftrightarrow> novel_post cfg w st pageName \<noteq> None) \<and>
   (page_source w = Loaded (post # rest) \<and> is_seen st pageName (fullPostUrl post)
      \<longrightarrow> after (processWebPost cfg w st pageName) = st) \<and>
   (page_source w = BuildFails \<or> page_source w = LoadFails \<or> page_source w = Loaded [] \<or>
    (page_source w = Loaded (post # rest) \<and> extract_embedded_link (preview post) = None \<and>
     isl (snd (video_step cfg w pageName post)))
      \<longrightarrow> after (processWebPost cfg w st pageName) = st) \<and>
   (novel_post cfg w st pageName = Some p
      \<longrightarrow> map_of (posts (after (processWebPost cfg w st pageName))) pageName
            = Some \<lparr>seen_url = fullPostUrl p, seen_timestamp = now_iso w\<rparr> \<and>
          posts (after (processWebPost cfg w st pageName))
            = AList.update pageName
                \<lparr>seen_url = fullPostUrl p, seen_timestamp = now_iso w\<rparr> (posts st) \<and>
          WriteStore (DATA_FILE cfg) (posts (after (processWebPost cfg w st pageName)))
            \<in> set (effects (processWebPost cfg w st pageName)) \<and>
          (write_ok w \<longrightarrow>
             data_file (after (processWebPost cfg w st pageName))
               = Some (posts (after (processWebPost cfg w st pageName)))))"
proof (intro conjI impI)
  show "(map_of (posts (after (processWebPost cfg w st pageName))) pageName
           \<noteq> map_of (posts st) pageName)
         = (novel_post cfg w st pageName \<noteq> None)"
  proof (cases "novel_post cfg w st pageName")
    case None
    then show ?thesis by (simp add: after_processWebPost)
  next
    case (Some q)
    with committed_changes [OF novel_post_not_seen [OF Some]] show ?thesis
      by (simp add: after_processWebPost)
  qed
next
  assume "page_source w = Loaded (post # rest) \<and> is_seen st pageName (fullPostUrl post)"
  then have "novel_post cfg w st pageName = None"
    by (simp add: novel_post_def novel_in_def)
  then show "after (processWebPost cfg w st pageName) = st"
    by (simp add: after_processWebPost)
next
  assume "page_source w = BuildFails \<or> page_source w = LoadFails \<or> page_source w = Loaded [] \<or>
    (page_source w = Loaded (post # rest) \<and> extract_embedded_link (preview post) = None \<and>
     isl (snd (video_step cfg w pageName post)))"
  then have "novel_post cfg w st pageName = None"
    by (auto simp: novel_post_def novel_in_def)
  then show "after (processWebPost cfg w st pageName) = st"
    by (simp add: after_processWebPost)
next
  assume n: "novel_post cfg w st pageName = Some p"
  then have a: "after (processWebPost cfg w st pageName) = committed w st pageName p"
    by (simp add: after_processWebPost)
  show "map_of (posts (after (processWebPost cfg w st pageName))) pageName
          = Some \<lparr>seen_url = fullPostUrl p, seen_timestamp = now_iso w\<rparr>"
    by (simp add: a committed_record)
  show "posts (after (processWebPost cfg w st pageName))
          = AList.update pageName
              \<lparr>seen_url = fullPostUrl p, seen_timestamp = now_iso w\<rparr> (posts st)"
    by (simp add: a committed_def Let_def)
  show "WriteStore (DATA_FILE cfg) (posts (after (processWebPost cfg w st pageName)))
          \<in> set (effects (processWebPost cfg w st pageName))"
    using write_effect_processWebPost [OF n] by (simp add: a)
  assume "write_ok w"
  then show "data_file (after (processWebPost cfg w st pageName))
               = Some (posts (after (processWebPost cfg w st pageName)))"
    by (simp add: a committed_def Let_def)
qed

theorem processWebPost_updates_record_iff_novel_witness:
  "novel_post cfg0 (fair_world [post200]) empty_state ''alpha'' = Some post200 \<and>
   map_of (posts (after (processWebPost cfg0 (fair_world [post200]) empty_state ''alpha''))) ''alpha''
     = Some \<lparr>seen_url = Some ''https://www.facebook.com/alpha/posts/200'',
             seen_timestamp = ''2024-05-01T10:00:00.000Z''\<rparr> \<and>
   data_file (after (processWebPost cfg0 (fair_world [post200]) empty_state ''alpha''))
     = Some (posts (after (processWebPost cfg0 (fair_world [post200]) empty_state ''alpha''))) \<and>
   is_seen seen200 ''alpha'' (fullPostUrl post200) \<and>
   after (processWebPost cfg0 (fair_world [post200]) seen200 ''alpha'') = seen200 \<and>
   after (processWebPost cfg0 (fair_world []) seen200 ''alpha'') = seen200"
proof -
  have u: "fullPostUrl post200 = Some ''https://www.facebook.com/alpha/posts/200''"
    by (simp add: post200_def text_post_def fullPostUrl_def)
  have n: "novel_post cfg0 (fair_world [post200]) empty_state ''alpha'' = Some post200"
    by (simp add: novel_post_def novel_in_def is_seen_def empty_state_def load_storage_def
        fair_world_def extract_embedded_link_def video_step_def post200_def text_post_def)
  have t: "now_iso (fair_world [post200]) = ''2024-05-01T10:00:00.000Z''"
    by (simp add: fair_world_def)
  have wk: "write_ok (fair_world [post200])"
    by (simp add: fair_world_def)
  have s: "is_seen seen200 ''alpha'' (fullPostUrl post200)"
    by (simp add: u is_seen_def seen200_def)
  have l: "page_source (fair_world [post200]) = Loaded (post200 # [])"
    by (simp add: fair_world_def)
  have e: "page_source (fair_world []) = Loaded []"
    by (simp add: fair_world_def)
  from processWebPost_updates_record_iff_novel
         [of cfg0 "fair_world [post200]" empty_state "''alpha''" post200 "[]" post200] n wk
  have "map_of (posts (after (processWebPost cfg0 (fair_world [post200]) empty_state ''alpha''))) ''alpha''
     = Some \<lparr>seen_url = fullPostUrl post200, seen_timestamp = now_iso (fair_world [post200])\<rparr> \<and>
    data_file (after (processWebPost cfg0 (fair_world [post200]) empty_state ''alpha''))
     = Some (posts (after (processWebPost cfg0 (fair_world [post200]) empty_state ''alpha'')))"
    by blast
  then have a: "map_of (posts (after (processWebPost cfg0 (fair_world [post200]) empty_state ''alpha''))) ''alpha''
     = Some \<lparr>seen_url = Some ''https://www.facebook.com/alpha/posts/200'',
             seen_timestamp = ''2024-05-01T10:00:00.000Z''\<rparr> \<and>
    data_file (after (processWebPost cfg0 (fair_world [post200]) empty_state ''alpha''))
     = Some (posts (after (processWebPost cfg0 (fair_world [post200]) empty_state ''alpha'')))"
    by (simp only: u t)
  from processWebPost_updates_record_iff_novel
         [of cfg0 "fair_world [post200]" seen200 "''alpha''" post200 "[]" post200] s l
  have b: "after (processWebPost cfg0 (fair_world [post200]) seen200 ''alpha'') = seen200"
    by blast
  from processWebPost_updates_record_iff_novel
         [of cfg0 "fair_world []" seen200 "''alpha''" post200 "[]" post200] e
  have c: "after (processWebPost cfg0 (fair_world []) seen200 ''alpha'') = seen200"
    by blast
  from n a s b c show ?thesis by blast
qed

section \<open>Commit before delivery\<close>

text \<open>
  C2. The claim: the store is committed before the delivery is attempted, and so a post
  whose delivery fails is recorded as seen, is not retried, and is never sent in any
  later cycle. The last part does not hold as stated. The store keeps one url for a
  page, the latest. Below, the delivery of a first post fails; the next check finds a
  second post and records it; the check after that finds the first post on top again
  (the second was removed, say) and sends it.
\<close>

theorem failed_post_sent_again_counterexample:
  "\<not> send_ok (send_fails (fair_world [postA])) \<and>
   sent (snd (monitorPage cfg0 (send_fails (fair_world [postA])) empty_state
                (''alpha'', ''chan-1'')))
     = [\<lparr>content = ''**alpha**'' @ [CHR 0x0A] @ ''first'', files = []\<rparr>] \<and>
   sent (snd (cycles cfg0 (''alpha'', ''chan-1'')
                (fst (monitorPage cfg0 (send_fails (fair_world [postA])) empty_state
                        (''alpha'', ''chan-1'')))
                [fair_world [postB], fair_world [postA]]))
     = [\<lparr>content = ''**alpha**'' @ [CHR 0x0A] @ ''second'', files = []\<rparr>,
        \<lparr>content = ''**alpha**'' @ [CHR 0x0A] @ ''first'', files = []\<rparr>]"
proof -
  let ?pc = "(''alpha'', ''chan-1'')"
  let ?w1 = "send_fails (fair_world [postA])"
  let ?st1 = "committed ?w1 empty_state ''alpha'' postA"
  let ?st2 = "committed (fair_world [postB]) ?st1 ''alpha'' postB"
  have uA: "fullPostUrl postA = Some ''https://www.facebook.com/alpha/posts/100''"
    and uB: "fullPostUrl postB = Some ''https://www.facebook.com/alpha/posts/101''"
    by (simp_all add: postA_def postB_def text_post_def fullPostUrl_def)
  have tA: "trim ''first'' = ''first''" and tB: "trim ''second'' = ''second''"
    by (simp_all add: trim_def is_space_def)
  have n0: "\<not> is_seen empty_state ''alpha'' (fullPostUrl postA)"
    by (simp add: is_seen_def empty_state_def load_storage_def)
  have n1: "\<not> is_seen ?st1 ''alpha'' (fullPostUrl postB)"
    by (simp add: is_seen_committed uA uB)
  have n2: "\<not> is_seen ?st2 ''alpha'' (fullPostUrl postA)"
    by (simp add: is_seen_committed uA uB)
  have f: "\<not> send_ok ?w1"
    by (simp add: send_fails_def)
  have s1: "fst (monitorPage cfg0 ?w1 empty_state ?pc) = ?st1"
    and m1: "sent (snd (monitorPage cfg0 ?w1 empty_state ?pc))
             = [\<lparr>content = ''**alpha**'' @ [CHR 0x0A] @ ''first'', files = []\<rparr>]"
    using monitorPage_text_post
            [of ?w1 "Some ''https://www.facebook.com/alpha/posts/100?ref=feed''" "''first''"
               empty_state "''alpha''" cfg0 "''chan-1''"] n0
    by (simp_all add: postA_def send_fails_def fair_world_def tA)
  have s2: "fst (monitorPage cfg0 (fair_world [postB]) ?st1 ?pc) = ?st2"
    and m2: "sent (snd (monitorPage cfg0 (fair_world [postB]) ?st1 ?pc))
             = [\<lparr>content = ''**alpha**'' @ [CHR 0x0A] @ ''second'', files = []\<rparr>]"
    using monitorPage_text_post
            [of "fair_world [postB]" "Some ''https://www.facebook.com/alpha/posts/101''"
               "''second''" ?st1 "''alpha''" cfg0 "''chan-1''"] n1
    by (simp_all add: postB_def fair_world_def tB)
  have m3: "sent (snd (monitorPage cfg0 (fair_world [postA]) ?st2 ?pc))
             = [\<lparr>content = ''**alpha**'' @ [CHR 0x0A] @ ''first'', files = []\<rparr>]"
    using monitorPage_text_post
            [of "fair_world [postA]" "Some ''https://www.facebook.com/alpha/posts/100?ref=feed''"
               "''first''" ?st2 "''alpha''" cfg0 "''chan-1''"] n2
    by (simp add: postA_def fair_world_def tA)
  have "sent (snd (cycles cfg0 ?pc ?st1 [fair_world [postB], fair_world [postA]]))
          = sent (snd (monitorPage cfg0 (fair_world [postB]) ?st1 ?pc)) @
            sent (snd (monitorPage cfg0 (fair_world [postA])
                         (fst (monitorPage cfg0 (fair_world [postB]) ?st1 ?pc)) ?pc))"
    by (simp add: split_beta Let_def)
  then have c: "sent (snd (cycles cfg0 ?pc ?st1 [fair_world [postB], fair_world [postA]]))
          = [\<lparr>content = ''**alpha**'' @ [CHR 0x0A] @ ''second'', files = []\<rparr>,
             \<lparr>content = ''**alpha**'' @ [CHR 0x0A] @ ''first'', files = []\<rparr>]"
    by (simp only: s2 m2 m3 append_Cons append_Nil)
  from f m1 c show ?thesis by (simp only: s1 simp_thms)
qed

text \<open>
  C2, as the code has it. Whenever a check sends a message, a novel post was extracted,
  the page's record already holds its url, the write of the store stands before the
  send in the order of effects, nothing is sent before the write, and the message is
  the only one sent in that check (no retry), whether the send succeeds or fails.
  From then on, through any number of later checks that find the same post first (or
  no post, or fail to load the page), nothing is sent and the state stays as it is.
\<close>

theorem commit_before_delivery_and_no_resend_while_first:
  "Send ch msg \<in> set (snd (monitorPage cfg w st pc)) \<Longrightarrow>
     \<exists>post before rest.
        novel_post cfg w st (fst pc) = Some post \<and>
        map_of (posts (fst (monitorPage cfg w st pc))) (fst pc)
          = Some \<lparr>seen_url = fullPostUrl post, seen_timestamp = now_iso w\<rparr> \<and>
        snd (monitorPage cfg w st pc)
          = before @ WriteStore (DATA_FILE cfg) (posts (fst (monitorPage cfg w st pc))) # rest \<and>
        sent before = [] \<and> sent rest = [msg] \<and>
        (\<forall>ws. (\<forall>w' \<in> set ws. shows_same (fullPostUrl post) w') \<longrightarrow>
              fst (cycles cfg pc (fst (monitorPage cfg w st pc)) ws)
                = fst (monitorPage cfg w st pc) \<and>
              sent (snd (cycles cfg pc (fst (monitorPage cfg w st pc)) ws)) = [])"
proof -
  assume a: "Send ch msg \<in> set (snd (monitorPage cfg w st pc))"
  then have m: "msg \<in> set (sent (snd (monitorPage cfg w st pc)))"
    by (rule Send_in_sent)
  then obtain c where d: "delivered cfg w st (fst pc) = Some c"
    by (cases "delivered cfg w st (fst pc)") (auto simp: sent_monitorPage)
  with m have k: "channel_ok w" and e: "msg = message_of w (fst pc) c"
    by (auto simp: sent_monitorPage split: if_splits)
  from delivered_needs_novel [OF d] obtain post where
    n: "novel_post cfg w st (fst pc) = Some post" by blast
  let ?st1 = "fst (monitorPage cfg w st pc)"
  from n have s1: "?st1 = committed w st (fst pc) post"
    by (simp add: fst_monitorPage)
  then have rec: "map_of (posts ?st1) (fst pc)
          = Some \<lparr>seen_url = fullPostUrl post, seen_timestamp = now_iso w\<rparr>"
    by (simp add: committed_record)
  from effects_processWebPost_novel [OF n] obtain veffs where
    pe: "effects (processWebPost cfg w st (fst pc))
           = (PageLoad (page_url cfg (fst pc)) # veffs) @
               WriteStore (DATA_FILE cfg) (posts (committed w st (fst pc) post)) #
               [BrowserQuit]"
    and sv: "sent veffs = []"
    by blast
  let ?before = "PageLoad (page_url cfg (fst pc)) # veffs"
  let ?rest = "[BrowserQuit] @ fst (sendDiscordMessage w pc c)"
  from pe d s1 have tr: "snd (monitorPage cfg w st pc)
          = ?before @ WriteStore (DATA_FILE cfg) (posts ?st1) # ?rest"
    by (simp add: monitorPage_eq)
  from sv have sb: "sent ?before = []" by simp
  from k e have sr: "sent ?rest = [msg]"
    by (simp add: sent_sendDiscordMessage)
  have later: "\<forall>ws. (\<forall>w' \<in> set ws. shows_same (fullPostUrl post) w') \<longrightarrow>
              fst (cycles cfg pc ?st1 ws) = ?st1 \<and> sent (snd (cycles cfg pc ?st1 ws)) = []"
    using cycles_same [OF rec, of _ cfg] by simp
  from n rec tr sb sr later show ?thesis by blast
qed

theorem commit_before_delivery_and_no_resend_while_first_witness:
  "\<not> send_ok (send_fails (fair_world [postA])) \<and>
   snd (monitorPage cfg0 (send_fails (fair_world [postA])) empty_state (''alpha'', ''chan-1''))
     = [PageLoad ''https://www.facebook.com/alpha'',
        WriteStore ''/app/storage.json''
          [(''alpha'', \<lparr>seen_url = Some ''https://www.facebook.com/alpha/posts/100'',
                        seen_timestamp = ''2024-05-01T10:00:00.000Z''\<rparr>)],
        BrowserQuit, ChannelFetch ''chan-1'',
        Send ''chan-1'' \<lparr>content = ''**alpha**'' @ [CHR 0x0A] @ ''first'', files = []\<rparr>] \<and>
   map_of (posts (fst (monitorPage cfg0 (send_fails (fair_world [postA])) empty_state
                         (''alpha'', ''chan-1'')))) ''alpha''
     = Some \<lparr>seen_url = Some ''https://www.facebook.com/alpha/posts/100'',
             seen_timestamp = ''2024-05-01T10:00:00.000Z''\<rparr> \<and>
   sent (snd (cycles cfg0 (''alpha'', ''chan-1'')
                (fst (monitorPage cfg0 (send_fails (fair_world [postA])) empty_state
                        (''alpha'', ''chan-1'')))
                [fair_world [postA], fair_world [], fair_world [postA]])) = []"
proof -
  let ?pc = "(''alpha'', ''chan-1'')"
  let ?w1 = "send_fails (fair_world [postA])"
  let ?msg = "\<lparr>content = ''**alpha**'' @ [CHR 0x0A] @ ''first'', files = []\<rparr>"
  let ?ws = "[fair_world [postA], fair_world [], fair_world [postA]]"
  have uA: "fullPostUrl postA = Some ''https://www.facebook.com/alpha/posts/100''"
    by (simp add: postA_def text_post_def fullPostUrl_def)
  have f: "\<not> send_ok ?w1"
    by (simp add: send_fails_def)
  have e: "extract_embedded_link (preview postA) = None"
    by (simp add: extract_embedded_link_def postA_def text_post_def)
  have v: "video_step cfg w ''alpha'' postA = ([], Inr [])" for cfg w
    by (simp add: video_step_def postA_def text_post_def)
  have t: "trim (message_text postA) = ''first''"
    by (simp add: trim_def is_space_def postA_def text_post_def)
  have i: "img_srcs postA = []"
    by (simp add: postA_def text_post_def)
  have tr: "snd (monitorPage cfg0 ?w1 empty_state ?pc)
     = [PageLoad ''https://www.facebook.com/alpha'',
        WriteStore ''/app/storage.json''
          [(''alpha'', \<lparr>seen_url = Some ''https://www.facebook.com/alpha/posts/100'',
                        seen_timestamp = ''2024-05-01T10:00:00.000Z''\<rparr>)],
        BrowserQuit, ChannelFetch ''chan-1'', Send ''chan-1'' ?msg]"
    by (simp add: monitorPage_def processWebPost_def extractPost_def store_and_return_def
        finally_quit_def sendDiscordMessage_def Let_def uA e v t i is_seen_def empty_state_def
        load_storage_def send_fails_def fair_world_def cfg0_def page_url_def link_of_def
        media_at_delivery_def image_callbacks_def)
  then have s: "Send ''chan-1'' ?msg \<in> set (snd (monitorPage cfg0 ?w1 empty_state ?pc))"
    by simp
  have n: "novel_post cfg0 ?w1 empty_state ''alpha'' = Some postA"
    by (simp add: novel_post_def novel_in_def e v uA is_seen_def empty_state_def
        load_storage_def send_fails_def fair_world_def)
  have sh: "\<forall>w' \<in> set ?ws. shows_same (fullPostUrl postA) w'"
    by (simp add: shows_same_def fair_world_def)
  have nw: "now_iso ?w1 = ''2024-05-01T10:00:00.000Z''"
    by (simp add: send_fails_def fair_world_def)
  from commit_before_delivery_and_no_resend_while_first [OF s] n
  have "map_of (posts (fst (monitorPage cfg0 ?w1 empty_state ?pc))) (fst ?pc)
          = Some \<lparr>seen_url = fullPostUrl postA, seen_timestamp = now_iso ?w1\<rparr> \<and>
        (\<forall>ws. (\<forall>w' \<in> set ws. shows_same (fullPostUrl postA) w') \<longrightarrow>
              sent (snd (cycles cfg0 ?pc (fst (monitorPage cfg0 ?w1 empty_state ?pc)) ws)) = [])"
    by auto
  with sh have "map_of (posts (fst (monitorPage cfg0 ?w1 empty_state ?pc))) ''alpha''
          = Some \<lparr>seen_url = Some ''https://www.facebook.com/alpha/posts/100'',
                  seen_timestamp = ''2024-05-01T10:00:00.000Z''\<rparr> \<and>
        sent (snd (cycles cfg0 ?pc (fst (monitorPage cfg0 ?w1 empty_state ?pc)) ?ws)) = []"
    by (simp only: uA nw fst_conv)
  with f tr show ?thesis by blast
qed

section \<open>A duplicate ends the check at once\<close>

text \<open>
  C3. When the url stored for the page equals the permalink of the first article of the
  fetched page (its query string stripped), the extractor returns \<^verbatim>\<open>null\<close> with no
  effect at all and no image callback started, and the state is as before. Whatever the
  article holds besides the permalink (link preview, video, images) plays no part. For
  the whole of \<^verbatim>\<open>processWebPost\<close> the only effects are those of the browser session,
  and \<^verbatim>\<open>monitorPage\<close> sends nothing.
\<close>

theorem duplicate_returns_null_at_once:
  "page_source w = Loaded (post # rest) \<Longrightarrow>
   map_of (posts st) pageName = Some r \<Longrightarrow>
   seen_url r = fullPostUrl post \<Longrightarrow>
     extractPost cfg w st pageName (post # rest)
       = \<lparr>result = Inr None, after = st, effects = [], callbacks = []\<rparr> \<and>
     processWebPost cfg w st pageName
       = \<lparr>result = (if quit_ok w then Inr None else Inl BrowserError), after = st,
          effects = [PageLoad (page_url cfg pageName), BrowserQuit], callbacks = []\<rparr> \<and>
     monitorPage cfg w st (pageName, channelId)
       = (st, [PageLoad (page_url cfg pageName), BrowserQuit])"
proof -
  assume l: "page_source w = Loaded (post # rest)"
    and m: "map_of (posts st) pageName = Some r"
    and u: "seen_url r = fullPostUrl post"
  from m u have s: "is_seen st pageName (fullPostUrl post)"
    by (simp add: is_seen_def)
  then have e: "extractPost cfg w st pageName (post # rest)
       = \<lparr>result = Inr None, after = st, effects = [], callbacks = []\<rparr>"
    by (simp add: extractPost_def)
  with l have p: "processWebPost cfg w st pageName
       = \<lparr>result = (if quit_ok w then Inr None else Inl BrowserError), after = st,
          effects = [PageLoad (page_url cfg pageName), BrowserQuit], callbacks = []\<rparr>"
    by (simp add: processWebPost_def finally_quit_def)
  then have "monitorPage cfg w st (pageName, channelId)
       = (st, [PageLoad (page_url cfg pageName), BrowserQuit])"
    by (simp add: monitorPage_def)
  with e p show ?thesis by simp
qed

theorem duplicate_returns_null_at_once_witness:
  "page_source (fair_world [post200]) = Loaded [post200] \<and>
   map_of (posts seen200) ''alpha''
     = Some \<lparr>seen_url = Some ''https://www.facebook.com/alpha/posts/200'',
             seen_timestamp = ''2024-04-30T09:00:00.000Z''\<rparr> \<and>
   fullPostUrl post200 = Some ''https://www.facebook.com/alpha/posts/200'' \<and>
   processWebPost cfg0 (fair_world [post200]) seen200 ''alpha''
     = \<lparr>result = Inr None, after = seen200,
        effects = [PageLoad ''https://www.facebook.com/alpha'', BrowserQuit],
        callbacks = []\<rparr> \<and>
   monitorPage cfg0 (fair_world [post200]) seen200 (''alpha'', ''chan-1'')
     = (seen200, [PageLoad ''https://www.facebook.com/alpha'', BrowserQuit])"
proof -
  let ?r = "\<lparr>seen_url = Some ''https://www.facebook.com/alpha/posts/200'',
             seen_timestamp = ''2024-04-30T09:00:00.000Z''\<rparr>"
  have l: "page_source (fair_world [post200]) = Loaded (post200 # [])"
    by (simp add: fair_world_def)
  have m: "map_of (posts seen200) ''alpha'' = Some ?r"
    by (simp add: seen200_def)
  have u: "seen_url ?r = fullPostUrl post200"
    by (simp add: post200_def text_post_def fullPostUrl_def)
  have q: "quit_ok (fair_world [post200])"
    by (simp add: fair_world_def)
  have g: "page_url cfg0 ''alpha'' = ''https://www.facebook.com/alpha''"
    by (simp add: page_url_def cfg0_def)
  have f: "fullPostUrl post200 = Some ''https://www.facebook.com/alpha/posts/200''"
    by (simp add: post200_def text_post_def fullPostUrl_def)
  from duplicate_returns_null_at_once [OF l m u, of cfg0 "''chan-1''"]
  have "processWebPost cfg0 (fair_world [post200]) seen200 ''alpha''
     = \<lparr>result = Inr None, after = seen200,
        effects = [PageLoad ''https://www.facebook.com/alpha'', BrowserQuit],
        callbacks = []\<rparr> \<and>
   monitorPage cfg0 (fair_world [post200]) seen200 (''alpha'', ''chan-1'')
     = (seen200, [PageLoad ''https://www.facebook.com/alpha'', BrowserQuit])"
    by (simp only: q g if_True)
  with l m f show ?thesis by simp
qed

section \<open>Attachment cap and cleanup\<close>

text \<open>
  C6. In every run of \<^verbatim>\<open>sendDiscordMessage\<close>: every file attached to the message sent
  has a size below 25,000,000 bytes, so a file of that size or more is never attached;
  for a well-formed content (as every delivered content is), every media item with a
  path and a file below the cap is attached; when the send fails no file is deleted;
  and every deletion stands after the send in the order of effects, in a run whose send
  succeeded, and deletes an attached file.
\<close>

theorem attachment_cap_and_cleanup_after_send:
  "(\<forall>ch msg f. Send ch msg \<in> set (fst (sendDiscordMessage w pc c)) \<and> f \<in> set (files msg)
      \<longrightarrow> (\<exists>sz. file_size w (attachment f) = Some sz \<and> sz < 25000000)) \<and>
   (channel_ok w \<and> well_formed c
      \<longrightarrow> (\<exists>msg. Send (snd pc) msg \<in> set (fst (sendDiscordMessage w pc c)) \<and>
             (\<forall>m p sz. m \<in> set (media c) \<and> path m = Some p \<and>
                        file_size w p = Some sz \<and> sz < 25000000
                \<longrightarrow> p \<in> attachment ` set (files msg)))) \<and>
   (\<not> send_ok w \<longrightarrow> (\<forall>p. Unlink p \<notin> set (fst (sendDiscordMessage w pc c)))) \<and>
   (\<forall>p. Unlink p \<in> set (fst (sendDiscordMessage w pc c))
      \<longrightarrow> send_ok w \<and>
          (\<exists>before msg dels.
             fst (sendDiscordMessage w pc c) = before @ Send (snd pc) msg # dels \<and>
             (\<forall>q. Unlink q \<notin> set before) \<and> Unlink p \<in> set dels \<and>
             p \<in> attachment ` set (files msg)))"
proof (intro conjI allI impI)
  fix ch msg f
  assume a: "Send ch msg \<in> set (fst (sendDiscordMessage w pc c)) \<and> f \<in> set (files msg)"
  then have "msg = message_of w (fst pc) c"
    by (auto simp: effects_sendDiscordMessage dest: stats_of_effects split: if_splits)
  with a have "attachment f \<in> set (to_delete w c)"
    using attachments_message_of [of w "fst pc" c] by blast
  then show "\<exists>sz. file_size w (attachment f) = Some sz \<and> sz < 25000000"
    by (rule to_delete_sizes)
next
  assume a: "channel_ok w \<and> well_formed c"
  then have s: "Send (snd pc) (message_of w (fst pc) c) \<in> set (fst (sendDiscordMessage w pc c))"
    by (simp add: effects_sendDiscordMessage)
  have "\<forall>m p sz. m \<in> set (media c) \<and> path m = Some p \<and>
                        file_size w p = Some sz \<and> sz < 25000000
                \<longrightarrow> p \<in> attachment ` set (files (message_of w (fst pc) c))"
    using a to_delete_all [of c _ _ w] by (simp add: attachments_message_of) blast
  with s show "\<exists>msg. Send (snd pc) msg \<in> set (fst (sendDiscordMessage w pc c)) \<and>
             (\<forall>m p sz. m \<in> set (media c) \<and> path m = Some p \<and>
                        file_size w p = Some sz \<and> sz < 25000000
                \<longrightarrow> p \<in> attachment ` set (files msg))"
    by blast
next
  fix p
  assume "\<not> send_ok w"
  then show "Unlink p \<notin> set (fst (sendDiscordMessage w pc c))"
    by (auto simp: effects_sendDiscordMessage dest: stats_of_effects)
next
  fix p
  assume u: "Unlink p \<in> set (fst (sendDiscordMessage w pc c))"
  then show "send_ok w"
    by (auto simp: effects_sendDiscordMessage dest: stats_of_effects split: if_splits)
next
  fix p
  assume u: "Unlink p \<in> set (fst (sendDiscordMessage w pc c))"
  then have k: "channel_ok w" and s: "send_ok w" and d: "p \<in> set (to_delete w c)"
    by (auto simp: effects_sendDiscordMessage dest: stats_of_effects split: if_splits)
  let ?before = "[ChannelFetch (snd pc)] @ stats_of w c"
  let ?msg = "message_of w (fst pc) c"
  let ?dels = "map Unlink (to_delete w c)"
  from k s have "fst (sendDiscordMessage w pc c) = ?before @ Send (snd pc) ?msg # ?dels"
    by (simp add: effects_sendDiscordMessage)
  moreover have "\<forall>q. Unlink q \<notin> set ?before"
    by (auto dest: stats_of_effects)
  moreover from d have "Unlink p \<in> set ?dels" by simp
  moreover from d have "p \<in> attachment ` set (files ?msg)"
    by (simp add: attachments_message_of)
  ultimately show "\<exists>before msg dels.
             fst (sendDiscordMessage w pc c) = before @ Send (snd pc) msg # dels \<and>
             (\<forall>q. Unlink q \<notin> set before) \<and> Unlink p \<in> set dels \<and>
             p \<in> attachment ` set (files msg)"
    by blast
qed

theorem attachment_cap_and_cleanup_after_send_witness:
  "channel_ok sized_world \<and> well_formed mixed_content \<and>
   file_size sized_world ''/app/media/small.jpg'' = Some 300000 \<and>
   (\<exists>msg. Send ''chan-1'' msg
            \<in> set (fst (sendDiscordMessage sized_world (''alpha'', ''chan-1'') mixed_content)) \<and>
          ''/app/media/small.jpg'' \<in> attachment ` set (files msg)) \<and>
   fst (sendDiscordMessage sized_world (''alpha'', ''chan-1'') mixed_content)
     = [ChannelFetch ''chan-1'', FileStat ''/app/media/big.mp4'',
        FileStat ''/app/media/small.jpg'',
        Send ''chan-1''
          \<lparr>content = ''**alpha**'' @ [CHR 0x0A] @ ''look'',
           files = [\<lparr>attachment = ''/app/media/small.jpg'', file_name = ''small.jpg''\<rparr>]\<rparr>,
        Unlink ''/app/media/small.jpg''] \<and>
   \<not> send_ok (sized_world\<lparr>send_ok := False\<rparr>) \<and>
   Unlink ''/app/media/small.jpg''
     \<notin> set (fst (sendDiscordMessage (sized_world\<lparr>send_ok := False\<rparr>) (''alpha'', ''chan-1'')
                     mixed_content))"
proof -
  let ?pc = "(''alpha'', ''chan-1'')"
  let ?small = "''/app/media/small.jpg''"
  have k: "channel_ok sized_world"
    by (simp add: sized_world_def fair_world_def)
  have wf: "well_formed mixed_content"
    by (simp add: well_formed_def mixed_content_def)
  have sz: "file_size sized_world ?small = Some 300000"
    by (simp add: sized_world_def)
  have m: "\<lparr>kind = ImageType, path = Some ?small\<rparr> \<in> set (media mixed_content)"
    by (simp add: mixed_content_def)
  have ns: "\<not> send_ok (sized_world\<lparr>send_ok := False\<rparr>)"
    by simp
  note T = attachment_cap_and_cleanup_after_send [of sized_world ?pc mixed_content]
  note F = attachment_cap_and_cleanup_after_send
             [of "sized_world\<lparr>send_ok := False\<rparr>" ?pc mixed_content]
  from T k wf obtain msg where
    s: "Send (snd ?pc) msg \<in> set (fst (sendDiscordMessage sized_world ?pc mixed_content))"
    and a: "\<forall>m p sz. m \<in> set (media mixed_content) \<and> path m = Some p \<and>
                        file_size sized_world p = Some sz \<and> sz < 25000000
                \<longrightarrow> p \<in> attachment ` set (files msg)"
    by blast
  from a m sz have "?small \<in> attachment ` set (files msg)"
    by (elim allE [where x = "\<lparr>kind = ImageType, path = Some ?small\<rparr>"]
             allE [where x = ?small] allE [where x = 300000]) simp
  with s have e: "\<exists>msg. Send ''chan-1'' msg
            \<in> set (fst (sendDiscordMessage sized_world ?pc mixed_content)) \<and>
          ?small \<in> attachment ` set (files msg)"
    by auto
  have v: "fst (sendDiscordMessage sized_world ?pc mixed_content)
     = [ChannelFetch ''chan-1'', FileStat ''/app/media/big.mp4'', FileStat ?small,
        Send ''chan-1''
          \<lparr>content = ''**alpha**'' @ [CHR 0x0A] @ ''look'',
           files = [\<lparr>attachment = ?small, file_name = ''small.jpg''\<rparr>]\<rparr>,
        Unlink ?small]"
    by (simp add: sendDiscordMessage_def Let_def attach_media_def link_of_def basename_def
        mixed_content_def sized_world_def fair_world_def)
  from F ns have u: "Unlink ?small
     \<notin> set (fst (sendDiscordMessage (sized_world\<lparr>send_ok := False\<rparr>) ?pc mixed_content))"
    by blast
  from k wf sz e v ns u show ?thesis by blast
qed

section \<open>Embedded link and media exclude each other\<close>

text \<open>
  C7. For every content that \<^verbatim>\<open>processWebPost\<close> returns: when it has an embedded
  link, its media list is empty, no image callback was started, no media reaches the
  delivery, and no media effect (probe, open, download, re-encode, close) took place;
  and when its media list is not empty, at return or at delivery, it has no embedded
  link.
\<close>

theorem link_and_media_exclusive:
  "result (processWebPost cfg w st pageName) = Inr (Some c) \<Longrightarrow>
     (embeddedLink c \<noteq> None \<longrightarrow>
        media c = [] \<and> callbacks (processWebPost cfg w st pageName) = [] \<and>
        media_at_delivery w c (callbacks (processWebPost cfg w st pageName)) = [] \<and>
        \<not> list_ex media_effect (effects (processWebPost cfg w st pageName))) \<and>
     (media c \<noteq> [] \<longrightarrow> embeddedLink c = None) \<and>
     (media_at_delivery w c (callbacks (processWebPost cfg w st pageName)) \<noteq> []
        \<longrightarrow> embeddedLink c = None)"
proof -
  assume r: "result (processWebPost cfg w st pageName) = Inr (Some c)"
  then obtain arts where l: "page_source w = Loaded arts"
    by (cases "page_source w") (auto simp: processWebPost_def split: if_splits)
  with r obtain post rest where a: "arts = post # rest"
    by (cases arts) (auto simp: processWebPost_def extractPost_def Let_def split: if_splits)
  have k: "embeddedLink c \<noteq> None \<longrightarrow>
        media c = [] \<and> callbacks (processWebPost cfg w st pageName) = [] \<and>
        \<not> list_ex media_effect (effects (processWebPost cfg w st pageName))"
    using r l a
    by (auto simp: processWebPost_def extractPost_def Let_def result_store_and_return
          effects_store_and_return
        split: if_splits prod.splits sum.splits)
  then have "embeddedLink c \<noteq> None \<longrightarrow>
      media_at_delivery w c (callbacks (processWebPost cfg w st pageName)) = []"
    by (auto simp: media_at_delivery_def enumerate_eq_zip)
  with k show ?thesis by blast
qed

theorem link_and_media_exclusive_witness:
  "result (processWebPost cfg0 (fair_world [link_post]) empty_state ''alpha'')
     = Inr (Some \<lparr>body_text = ''read this'', media = [],
                   url = Some ''https://www.facebook.com/alpha/posts/300'',
                   embeddedLink = Some \<lparr>link_url = ''https://example.com/news''\<rparr>,
                   timestamp = ''2024-05-01T10:00:00.000Z''\<rparr>) \<and>
   callbacks (processWebPost cfg0 (fair_world [link_post]) empty_state ''alpha'') = [] \<and>
   \<not> list_ex media_effect
       (effects (processWebPost cfg0 (fair_world [link_post]) empty_state ''alpha'')) \<and>
   result (processWebPost cfg0 (fair_world [media_post]) empty_state ''alpha'')
     = Inr (Some \<lparr>body_text = ''look'',
                   media = [\<lparr>kind = VideoType,
                             path = Some ''/app/media/alpha_1714557600000_0.mp4''\<rparr>],
                   url = Some ''https://www.facebook.com/alpha/posts/400'',
                   embeddedLink = None,
                   timestamp = ''2024-05-01T10:00:00.000Z''\<rparr>)"
proof -
  let ?c = "\<lparr>body_text = ''read this'', media = [],
             url = Some ''https://www.facebook.com/alpha/posts/300'',
             embeddedLink = Some \<lparr>link_url = ''https://example.com/news''\<rparr>,
             timestamp = ''2024-05-01T10:00:00.000Z''\<rparr>"
  let ?m = "\<lparr>body_text = ''look'',
             media = [\<lparr>kind = VideoType, path = Some ''/app/media/alpha_1714557600000_0.mp4''\<rparr>],
             url = Some ''https://www.facebook.com/alpha/posts/400'',
             embeddedLink = None,
             timestamp = ''2024-05-01T10:00:00.000Z''\<rparr>"
  have d: "decodeURIComponent
             ''https://l.facebook.com/l.php?u=https%3A%2F%2Fexample.com%2Fnews&h=AT0x''
           = Some ''https://l.facebook.com/l.php?u=https://example.com/news&h=AT0x''"
    by code_simp
  have x: "extractUrl ''https://l.facebook.com/l.php?u=https://example.com/news&h=AT0x''
           = ''https://example.com/news''"
    by code_simp
  have el: "extract_embedded_link (preview link_post)
            = Some \<lparr>link_url = ''https://example.com/news''\<rparr>"
    by (simp add: extract_embedded_link_def link_post_def js_or_def d x starts_with_def)
  have fl: "fullPostUrl link_post = Some ''https://www.facebook.com/alpha/posts/300''"
    by (simp add: fullPostUrl_def link_post_def)
  have tl: "trim (message_text link_post) = ''read this''"
    by (simp add: trim_def link_post_def is_space_def)
  have r: "result (processWebPost cfg0 (fair_world [link_post]) empty_state ''alpha'')
           = Inr (Some ?c)"
    by (simp add: processWebPost_def extractPost_def Let_def fair_world_def el fl tl is_seen_def
        empty_state_def load_storage_def result_store_and_return)
  have sn: "show_nat 1714557600000 = ''1714557600000''"
    by (simp add: show_nat.simps digit_char_def)
  have s0: "show_nat 0 = ''0''"
    by (simp add: show_nat.simps digit_char_def)
  have fm: "fullPostUrl media_post = Some ''https://www.facebook.com/alpha/posts/400''"
    by (simp add: fullPostUrl_def media_post_def)
  have tm: "trim (message_text media_post) = ''look''"
    by (simp add: trim_def media_post_def is_space_def)
  have em: "extract_embedded_link (preview media_post) = None"
    by (simp add: extract_embedded_link_def media_post_def)
  have vm: "video_step cfg0 (fair_world [media_post]) ''alpha'' media_post
            = ([FileOpen ''/app/media/alpha_1714557600000_0.mp4'',
                HttpGet ''https://video.example.com/v.mp4'',
                Transcode ''/app/media/alpha_1714557600000_0.mp4'',
                FileClose ''/app/media/alpha_1714557600000_0.mp4''],
               Inr [\<lparr>kind = VideoType, path = Some ''/app/media/alpha_1714557600000_0.mp4''\<rparr>])"
    by (simp add: video_step_def media_post_def downloadMedia_def download_try_def
        media_path_def media_filename_def path_join_def fair_world_def cfg0_def sn s0 Let_def)
  have r2: "result (processWebPost cfg0 (fair_world [media_post]) empty_state ''alpha'')
            = Inr (Some ?m)"
    using vm
    by (simp add: processWebPost_def extractPost_def Let_def fair_world_def em fm tm is_seen_def
        empty_state_def load_storage_def result_store_and_return)
  from link_and_media_exclusive [OF r]
  have "callbacks (processWebPost cfg0 (fair_world [link_post]) empty_state ''alpha'') = [] \<and>
    \<not> list_ex media_effect
       (effects (processWebPost cfg0 (fair_world [link_post]) empty_state ''alpha''))"
    by simp
  with r r2 show ?thesis by blast
qed

section \<open>The size filter for images\<close>

lemma image_callbacks_nth:
  "k < length srcs \<Longrightarrow>
     image_callbacks cfg w pageName srcs ! k = imageCallback cfg w pageName k (srcs ! k)"
  by (simp add: image_callbacks_def nth_enumerate_eq)

lemma callbacks_extractPost_media:
  "\<not> is_seen st pageName (fullPostUrl post) \<Longrightarrow>
   extract_embedded_link (preview post) = None \<Longrightarrow>
   \<not> isl (snd (video_step cfg w pageName post)) \<Longrightarrow>
     callbacks (extractPost cfg w st pageName (post # rest))
       = image_callbacks cfg w pageName (img_srcs post)"
  by (auto simp: extractPost_def Let_def split: prod.splits sum.splits)

lemma HttpGet_in_downloadMedia:
  "HttpGet src \<in> set (fst (downloadMedia cfg w pageName src type index))
     \<longleftrightarrow> open_ok w (media_path cfg w pageName type index)"
  by (auto simp: downloadMedia_def download_try_def Let_def split: prod.splits if_splits)

text \<open>
  C8. For an image whose source begins with \<^verbatim>\<open>http\<close>, the callback first probes the
  source with a HEAD request. When the response reports the content length \<open>n\<close> (in
  decimal), the callback goes on to \<^verbatim>\<open>downloadMedia\<close> exactly when \<open>n\<close> exceeds 2048,
  and (the file once opened) the GET request for the image is made exactly then; with
  no length reported, or a failed probe, nothing follows the probe. For a novel post
  with no embedded link, the callback number \<open>k\<close> is the one of the image number \<open>k\<close>.
\<close>

theorem image_probed_and_downloaded_iff_large:
  "starts_with ''http'' src \<Longrightarrow>
     (\<exists>more. fst (imageCallback cfg w pageName i (Some src)) = HttpHead src # more) \<and>
     (head_reply w src = Some (Some (show_nat n)) \<longrightarrow>
        fst (imageCallback cfg w pageName i (Some src))
          = HttpHead src #
              (if 2048 < n then fst (downloadMedia cfg w pageName src ImageType i) else []) \<and>
        (open_ok w (media_path cfg w pageName ImageType i) \<longrightarrow>
           (HttpGet src \<in> set (fst (imageCallback cfg w pageName i (Some src)))
              \<longleftrightarrow> 2048 < n))) \<and>
     (head_reply w src = None \<or> head_reply w src = Some None \<longrightarrow>
        fst (imageCallback cfg w pageName i (Some src)) = [HttpHead src]) \<and>
     (\<not> is_seen st pageName (fullPostUrl post) \<and>
      extract_embedded_link (preview post) = None \<and>
      \<not> isl (snd (video_step cfg w pageName post)) \<and>
      k < length (img_srcs post) \<longrightarrow>
        callbacks (extractPost cfg w st pageName (post # rest)) ! k
          = imageCallback cfg w pageName k (img_srcs post ! k))"
proof (intro conjI impI)
  assume h: "starts_with ''http'' src"
  then have ne: "src \<noteq> []" by (auto simp: starts_with_def)
  show "\<exists>more. fst (imageCallback cfg w pageName i (Some src)) = HttpHead src # more"
    using h ne
    by (auto simp: imageCallback_def split: option.splits prod.splits sum.splits)
  {
    assume r: "head_reply w src = Some (Some (show_nat n))"
    have g: "js_gt (parseInt (show_nat n)) (Num 2048) \<longleftrightarrow> 2048 < n"
      by (simp add: parseInt_show_nat)
    show e: "fst (imageCallback cfg w pageName i (Some src))
          = HttpHead src #
              (if 2048 < n then fst (downloadMedia cfg w pageName src ImageType i) else [])"
      using h ne r g show_nat_not_Nil [of n]
      by (auto simp: imageCallback_def split: prod.splits sum.splits)
    assume "open_ok w (media_path cfg w pageName ImageType i)"
    then show "HttpGet src \<in> set (fst (imageCallback cfg w pageName i (Some src)))
              \<longleftrightarrow> 2048 < n"
      by (simp add: e HttpGet_in_downloadMedia)
  }
  {
    assume "head_reply w src = None \<or> head_reply w src = Some None"
    then show "fst (imageCallback cfg w pageName i (Some src)) = [HttpHead src]"
      using h ne by (auto simp: imageCallback_def)
  }
  {
    assume "\<not> is_seen st pageName (fullPostUrl post) \<and>
      extract_embedded_link (preview post) = None \<and>
      \<not> isl (snd (video_step cfg w pageName post)) \<and>
      k < length (img_srcs post)"
    then show "callbacks (extractPost cfg w st pageName (post # rest)) ! k
          = imageCallback cfg w pageName k (img_srcs post ! k)"
      by (simp add: callbacks_extractPost_media image_callbacks_nth)
  }
qed

theorem image_probed_and_downloaded_iff_large_witness:
  "starts_with ''http'' ''https://cdn.example.com/a.jpg'' \<and>
   head_reply (fair_world [media_post]) ''https://cdn.example.com/a.jpg''
     = Some (Some (show_nat 4096)) \<and>
   fst (imageCallback cfg0 (fair_world [media_post]) ''alpha'' 0
          (Some ''https://cdn.example.com/a.jpg''))
     = [HttpHead ''https://cdn.example.com/a.jpg'',
        FileOpen ''/app/media/alpha_1714557600000_0.jpg'',
        HttpGet ''https://cdn.example.com/a.jpg'',
        FileClose ''/app/media/alpha_1714557600000_0.jpg''] \<and>
   head_reply (small_image_world [media_post]) ''https://cdn.example.com/a.jpg''
     = Some (Some (show_nat 2048)) \<and>
   fst (imageCallback cfg0 (small_image_world [media_post]) ''alpha'' 0
          (Some ''https://cdn.example.com/a.jpg''))
     = [HttpHead ''https://cdn.example.com/a.jpg''] \<and>
   callbacks (extractPost cfg0 (fair_world [media_post]) empty_state ''alpha'' [media_post]) ! 0
     = imageCallback cfg0 (fair_world [media_post]) ''alpha'' 0
         (Some ''https://cdn.example.com/a.jpg'')"
proof -
  let ?src = "''https://cdn.example.com/a.jpg''"
  have h: "starts_with ''http'' ?src"
    by (simp add: starts_with_def)
  have n1: "show_nat 4096 = ''4096''" and n2: "show_nat 2048 = ''2048''"
    and sn: "show_nat 1714557600000 = ''1714557600000''" and s0: "show_nat 0 = ''0''"
    by (simp_all add: show_nat.simps digit_char_def)
  have r1: "head_reply (fair_world [media_post]) ?src = Some (Some (show_nat 4096))"
    by (simp add: fair_world_def n1)
  have r2: "head_reply (small_image_world [media_post]) ?src = Some (Some (show_nat 2048))"
    by (simp add: small_image_world_def n2)
  have d: "fst (downloadMedia cfg0 (fair_world [media_post]) ''alpha'' ?src ImageType 0)
           = [FileOpen ''/app/media/alpha_1714557600000_0.jpg'', HttpGet ?src,
              FileClose ''/app/media/alpha_1714557600000_0.jpg'']"
    by (simp add: downloadMedia_def download_try_def media_path_def media_filename_def
        path_join_def fair_world_def cfg0_def sn s0 Let_def)
  have ns: "\<not> is_seen empty_state ''alpha'' (fullPostUrl media_post)"
    by (simp add: is_seen_def empty_state_def load_storage_def)
  have el: "extract_embedded_link (preview media_post) = None"
    by (simp add: extract_embedded_link_def media_post_def)
  have v: "\<not> isl (snd (video_step cfg0 (fair_world [media_post]) ''alpha'' media_post))"
    by (simp add: video_step_def media_post_def downloadMedia_def download_try_def
        fair_world_def Let_def)
  have k: "0 < length (img_srcs media_post)" and i0: "img_srcs media_post ! 0 = Some ?src"
    by (simp_all add: media_post_def)
  note T1 = image_probed_and_downloaded_iff_large
              [where src = ?src and w = "fair_world [media_post]" and n = 4096 and cfg = cfg0
                 and pageName = "''alpha''" and i = 0 and st = empty_state
                 and post = media_post and k = 0 and rest = "[]", OF h]
  note T2 = image_probed_and_downloaded_iff_large
              [where src = ?src and w = "small_image_world [media_post]" and n = 2048
                 and cfg = cfg0 and pageName = "''alpha''" and i = 0 and st = empty_state
                 and post = media_post and k = 0 and rest = "[]", OF h]
  from T1 r1 have "fst (imageCallback cfg0 (fair_world [media_post]) ''alpha'' 0 (Some ?src))
      = HttpHead ?src #
          (if 2048 < (4096::nat)
           then fst (downloadMedia cfg0 (fair_world [media_post]) ''alpha'' ?src ImageType 0)
           else [])"
    by blast
  then have a: "fst (imageCallback cfg0 (fair_world [media_post]) ''alpha'' 0 (Some ?src))
      = [HttpHead ?src, FileOpen ''/app/media/alpha_1714557600000_0.jpg'', HttpGet ?src,
         FileClose ''/app/media/alpha_1714557600000_0.jpg'']"
    by (simp add: d)
  from T2 r2 have "fst (imageCallback cfg0 (small_image_world [media_post]) ''alpha'' 0 (Some ?src))
      = HttpHead ?src #
          (if 2048 < (2048::nat)
           then fst (downloadMedia cfg0 (small_image_world [media_post]) ''alpha'' ?src ImageType 0)
           else [])"
    by blast
  then have b: "fst (imageCallback cfg0 (small_image_world [media_post]) ''alpha'' 0 (Some ?src))
      = [HttpHead ?src]"
    by simp
  from T1 ns el v k
  have "callbacks (extractPost cfg0 (fair_world [media_post]) empty_state ''alpha'' [media_post]) ! 0
      = imageCallback cfg0 (fair_world [media_post]) ''alpha'' 0 (img_srcs media_post ! 0)"
    by blast
  then have c: "callbacks (extractPost cfg0 (fair_world [media_post]) empty_state ''alpha'' [media_post]) ! 0
      = imageCallback cfg0 (fair_world [media_post]) ''alpha'' 0 (Some ?src)"
    by (simp only: i0)
  from h r1 a r2 b c show ?thesis by blast
qed

section \<open>Posts without a permalink\<close>

text \<open>A check whose first article, if the page has one, carries no permalink anchor.\<close>

definition no_permalink :: "world \<Rightarrow> bool" where
  "no_permalink w =
     (case page_source w of
        Loaded (post # _) \<Rightarrow> permalink_href post = None
      | _ \<Rightarrow> True)"

lemma fullPostUrl_no_permalink: "permalink_href post = None \<Longrightarrow> fullPostUrl post = None"
  by (simp add: fullPostUrl_def)

lemma no_permalink_shows_same: "no_permalink w \<Longrightarrow> shows_same None w"
  by (auto simp: no_permalink_def shows_same_def fullPostUrl_no_permalink
      split: page_result.splits list.splits)

lemma novel_post_first:
  "novel_post cfg w st pageName = Some post \<Longrightarrow> \<exists>rest. page_source w = Loaded (post # rest)"
  by (auto simp: novel_post_def novel_in_def split: page_result.splits list.splits if_splits)

lemma result_processWebPost_novel:
  assumes n: "novel_post cfg w st pageName = Some post" and q: "quit_ok w" and wr: "write_ok w"
  shows "\<exists>c. result (processWebPost cfg w st pageName) = Inr (Some c) \<and>
             url c = fullPostUrl post"
proof -
  from n obtain rest where l: "page_source w = Loaded (post # rest)"
    and s: "\<not> is_seen st pageName (fullPostUrl post)"
    by (auto simp: novel_post_def novel_in_def split: page_result.splits list.splits if_splits)
  obtain effs r where v: "video_step cfg w pageName post = (effs, r)"
    by (cases "video_step cfg w pageName post")
  show ?thesis
  proof (cases "extract_embedded_link (preview post)")
    case (Some link)
    with l s q wr show ?thesis
      by (simp add: processWebPost_def extractPost_def Let_def result_store_and_return)
  next
    case None
    with n l s v obtain vs where "r = Inr vs"
      by (cases r) (auto simp: novel_post_def novel_in_def)
    with None l s v q wr show ?thesis
      by (simp add: processWebPost_def extractPost_def Let_def result_store_and_return)
  qed
qed

lemma length_sent_monitorPage: "length (sent (snd (monitorPage cfg w st pc))) \<le> 1"
  by (simp add: sent_monitorPage split: option.splits)

lemma cycles_no_permalink:
  "\<forall>w \<in> set ws. no_permalink w \<Longrightarrow> length (sent (snd (cycles cfg pc st ws))) \<le> 1"
proof (induction ws arbitrary: st)
  case Nil
  then show ?case by simp
next
  case (Cons w ws)
  from Cons.prems have np: "no_permalink w" and rest: "\<forall>w \<in> set ws. no_permalink w"
    by simp_all
  have split: "sent (snd (cycles cfg pc st (w # ws)))
      = sent (snd (monitorPage cfg w st pc)) @
        sent (snd (cycles cfg pc (fst (monitorPage cfg w st pc)) ws))"
    by (simp add: split_beta Let_def)
  show ?case
  proof (cases "novel_post cfg w st (fst pc)")
    case None
    then have "delivered cfg w st (fst pc) = None"
      using delivered_needs_novel [of cfg w st "fst pc"]
      by (cases "delivered cfg w st (fst pc)") auto
    with None have "fst (monitorPage cfg w st pc) = st"
      and "sent (snd (monitorPage cfg w st pc)) = []"
      by (simp_all add: fst_monitorPage sent_monitorPage)
    with Cons.IH [OF rest, of st] split show ?thesis by simp
  next
    case (Some post)
    from novel_post_first [OF Some] np have u: "fullPostUrl post = None"
      by (auto simp: no_permalink_def fullPostUrl_no_permalink)
    from Some have s1: "fst (monitorPage cfg w st pc) = committed w st (fst pc) post"
      by (simp add: fst_monitorPage)
    have rec: "map_of (posts (committed w st (fst pc) post)) (fst pc)
          = Some \<lparr>seen_url = fullPostUrl post, seen_timestamp = now_iso w\<rparr>"
      by (rule committed_record)
    from rest have "\<forall>w' \<in> set ws. shows_same None w'"
      by (simp add: no_permalink_shows_same)
    with cycles_same [OF rec, of ws cfg] u
    have "sent (snd (cycles cfg pc (committed w st (fst pc) post) ws)) = []"
      by simp
    with split s1 length_sent_monitorPage [of cfg w st pc] show ?thesis by simp
  qed
qed

text \<open>
  C10. When the first article has no permalink anchor, the page's stored url is not
  already \<^verbatim>\<open>null\<close> and nothing throws before the commit, the extractor goes on with a
  \<^verbatim>\<open>null\<close> url and the record committed has the url \<^verbatim>\<open>null\<close> (and the content returned
  has it too, the write and the browser's quit succeeding). With \<^verbatim>\<open>null\<close> stored and a
  first article without permalink, the extractor returns \<^verbatim>\<open>null\<close> and the check does
  nothing but open and quit the browser. Through any sequence of checks that never
  find a permalink, from any state, at most one message is sent.
\<close>

theorem no_permalink_commits_null_and_notifies_at_most_once:
  "(page_source w = Loaded (post # rest) \<and> permalink_href post = None \<and>
    \<not> is_seen st pageName None \<and>
    \<not> (extract_embedded_link (preview post) = None \<and>
       isl (snd (video_step cfg w pageName post)))
      \<longrightarrow> map_of (posts (after (processWebPost cfg w st pageName))) pageName
            = Some \<lparr>seen_url = None, seen_timestamp = now_iso w\<rparr> \<and>
          (quit_ok w \<and> write_ok w \<longrightarrow>
             (\<exists>c. result (processWebPost cfg w st pageName) = Inr (Some c) \<and> url c = None))) \<and>
   (page_source w = Loaded (post # rest) \<and> permalink_href post = None \<and>
    map_of (posts st) pageName = Some r \<and> seen_url r = None
      \<longrightarrow> extractPost cfg w st pageName (post # rest)
            = \<lparr>result = Inr None, after = st, effects = [], callbacks = []\<rparr> \<and>
          monitorPage cfg w st (pageName, channelId)
            = (st, [PageLoad (page_url cfg pageName), BrowserQuit])) \<and>
   ((\<forall>w' \<in> set ws. no_permalink w')
      \<longrightarrow> length (sent (snd (cycles cfg (pageName, channelId) st ws))) \<le> 1)"
proof (intro conjI impI)
  assume a: "page_source w = Loaded (post # rest) \<and> permalink_href post = None \<and>
    \<not> is_seen st pageName None \<and>
    \<not> (extract_embedded_link (preview post) = None \<and>
       isl (snd (video_step cfg w pageName post)))"
  then have u: "fullPostUrl post = None" by (simp add: fullPostUrl_no_permalink)
  with a have n: "novel_post cfg w st pageName = Some post"
    by (auto simp: novel_post_def novel_in_def)
  then show "map_of (posts (after (processWebPost cfg w st pageName))) pageName
            = Some \<lparr>seen_url = None, seen_timestamp = now_iso w\<rparr>"
    by (simp add: after_processWebPost committed_record u)
  assume "quit_ok w \<and> write_ok w"
  with result_processWebPost_novel [OF n] u
  show "\<exists>c. result (processWebPost cfg w st pageName) = Inr (Some c) \<and> url c = None"
    by simp
next
  assume a: "page_source w = Loaded (post # rest) \<and> permalink_href post = None \<and>
    map_of (posts st) pageName = Some r \<and> seen_url r = None"
  then have s: "is_seen st pageName (fullPostUrl post)"
    by (simp add: is_seen_def fullPostUrl_no_permalink)
  then show e: "extractPost cfg w st pageName (post # rest)
            = \<lparr>result = Inr None, after = st, effects = [], callbacks = []\<rparr>"
    by (simp add: extractPost_def)
  with a show "monitorPage cfg w st (pageName, channelId)
            = (st, [PageLoad (page_url cfg pageName), BrowserQuit])"
    by (simp add: monitorPage_def processWebPost_def finally_quit_def)
next
  assume "\<forall>w' \<in> set ws. no_permalink w'"
  then show "length (sent (snd (cycles cfg (pageName, channelId) st ws))) \<le> 1"
    by (rule cycles_no_permalink)
qed

theorem no_permalink_commits_null_and_notifies_at_most_once_witness:
  "map_of (posts (after (processWebPost cfg0 (fair_world [plain_post]) empty_state ''alpha'')))
     ''alpha''
     = Some \<lparr>seen_url = None, seen_timestamp = ''2024-05-01T10:00:00.000Z''\<rparr> \<and>
   (\<exists>c. result (processWebPost cfg0 (fair_world [plain_post]) empty_state ''alpha'')
          = Inr (Some c) \<and> url c = None) \<and>
   monitorPage cfg0 (fair_world [plain_post])
       (after (processWebPost cfg0 (fair_world [plain_post]) empty_state ''alpha''))
       (''alpha'', ''chan-1'')
     = (after (processWebPost cfg0 (fair_world [plain_post]) empty_state ''alpha''),
        [PageLoad ''https://www.facebook.com/alpha'', BrowserQuit]) \<and>
   length (sent (snd (cycles cfg0 (''alpha'', ''chan-1'') empty_state
                        [fair_world [plain_post], fair_world [plain_post],
                         fair_world [plain_post]]))) \<le> 1 \<and>
   sent (snd (cycles cfg0 (''alpha'', ''chan-1'') empty_state
                [fair_world [plain_post], fair_world [plain_post], fair_world [plain_post]]))
     = [\<lparr>content = ''**alpha**'' @ [CHR 0x0A] @ ''no link here'', files = []\<rparr>]"
proof -
  let ?w = "fair_world [plain_post]"
  let ?pc = "(''alpha'', ''chan-1'')"
  let ?st1 = "after (processWebPost cfg0 ?w empty_state ''alpha'')"
  let ?rec = "\<lparr>seen_url = None, seen_timestamp = ''2024-05-01T10:00:00.000Z''\<rparr>"
  have l: "page_source ?w = Loaded (plain_post # [])"
    by (simp add: fair_world_def)
  have h: "permalink_href plain_post = None"
    by (simp add: plain_post_def text_post_def)
  have ns: "\<not> is_seen empty_state ''alpha'' None"
    by (simp add: is_seen_def empty_state_def load_storage_def)
  have v: "\<not> (extract_embedded_link (preview plain_post) = None \<and>
              isl (snd (video_step cfg0 ?w ''alpha'' plain_post)))"
    by (simp add: video_step_def plain_post_def text_post_def)
  have ok: "quit_ok ?w \<and> write_ok ?w"
    by (simp add: fair_world_def)
  have nw: "now_iso ?w = ''2024-05-01T10:00:00.000Z''"
    by (simp add: fair_world_def)
  have g: "page_url cfg0 ''alpha'' = ''https://www.facebook.com/alpha''"
    by (simp add: page_url_def cfg0_def)
  have np: "\<forall>w' \<in> set [?w, ?w, ?w]. no_permalink w'"
    by (simp add: no_permalink_def fair_world_def h)
  note T1 = no_permalink_commits_null_and_notifies_at_most_once
              [where w = ?w and post = plain_post and rest = "[]" and st = empty_state
                 and pageName = "''alpha''" and cfg = cfg0 and channelId = "''chan-1''"
                 and ws = "[?w, ?w, ?w]" and r = ?rec]
  from T1 l h ns v ok
  have "map_of (posts ?st1) ''alpha'' = Some \<lparr>seen_url = None, seen_timestamp = now_iso ?w\<rparr> \<and>
        (\<exists>c. result (processWebPost cfg0 ?w empty_state ''alpha'') = Inr (Some c) \<and> url c = None)"
    by blast
  then have a: "map_of (posts ?st1) ''alpha'' = Some ?rec \<and>
        (\<exists>c. result (processWebPost cfg0 ?w empty_state ''alpha'') = Inr (Some c) \<and> url c = None)"
    by (simp only: nw)
  then have m: "map_of (posts ?st1) ''alpha'' = Some ?rec" and sr: "seen_url ?rec = None"
    by simp_all
  note T2 = no_permalink_commits_null_and_notifies_at_most_once
              [where w = ?w and post = plain_post and rest = "[]" and st = ?st1
                 and pageName = "''alpha''" and cfg = cfg0 and channelId = "''chan-1''"
                 and ws = "[?w, ?w, ?w]" and r = ?rec]
  from T2 l h m sr
  have "monitorPage cfg0 ?w ?st1 ?pc = (?st1, [PageLoad (page_url cfg0 ''alpha''), BrowserQuit])"
    by blast
  then have b: "monitorPage cfg0 ?w ?st1 ?pc
      = (?st1, [PageLoad ''https://www.facebook.com/alpha'', BrowserQuit])"
    by (simp only: g)
  from T1 np
  have c: "length (sent (snd (cycles cfg0 ?pc empty_state [?w, ?w, ?w]))) \<le> 1"
    by blast
  have t: "trim ''no link here'' = ''no link here''"
    by (simp add: trim_def is_space_def)
  have f: "fullPostUrl (text_post None ''no link here'') = None"
    by (simp add: fullPostUrl_def text_post_def)
  have s1: "fst (monitorPage cfg0 ?w empty_state ?pc)
              = committed ?w empty_state ''alpha'' plain_post"
    and m1: "sent (snd (monitorPage cfg0 ?w empty_state ?pc))
              = [\<lparr>content = ''**alpha**'' @ [CHR 0x0A] @ ''no link here'', files = []\<rparr>]"
    using monitorPage_text_post
            [of ?w None "''no link here''" empty_state "''alpha''" cfg0 "''chan-1''"] ns
    by (simp_all add: plain_post_def fair_world_def t f)
  have rec: "map_of (posts (committed ?w empty_state ''alpha'' plain_post)) (fst ?pc)
               = Some \<lparr>seen_url = fullPostUrl plain_post, seen_timestamp = now_iso ?w\<rparr>"
    by (simp add: committed_record)
  have sh: "\<forall>w' \<in> set [?w, ?w]. shows_same (fullPostUrl plain_post) w'"
    by (simp add: shows_same_def fair_world_def)
  from cycles_same [OF rec, of "[?w, ?w]" cfg0] sh
  have later: "sent (snd (cycles cfg0 ?pc (committed ?w empty_state ''alpha'' plain_post)
                            [?w, ?w])) = []"
    by simp
  have "sent (snd (cycles cfg0 ?pc empty_state [?w, ?w, ?w]))
      = sent (snd (monitorPage cfg0 ?w empty_state ?pc)) @
        sent (snd (cycles cfg0 ?pc (fst (monitorPage cfg0 ?w empty_state ?pc)) [?w, ?w]))"
    by (simp add: split_beta Let_def)
  then have d: "sent (snd (cycles cfg0 ?pc empty_state [?w, ?w, ?w]))
      = [\<lparr>content = ''**alpha**'' @ [CHR 0x0A] @ ''no link here'', files = []\<rparr>]"
    by (simp only: s1 m1 later append_Nil2)
  from a b c d show ?thesis by blast
qed

end
